theory Spec2Isabelle
  imports Complex_Main "HOL-Library.Log_Nat"
begin

section \<open>JavaScript strings and POSIX paths\<close>

text \<open>
  File names and paths are \<^typ>\<open>string\<close>s. The functions below are the parts of
  \<^verbatim>\<open>String.prototype\<close> and of Node's \<^verbatim>\<open>path\<close> module (POSIX flavour) that
  \<^verbatim>\<open>Scripts/optimize_images.js\<close> calls.
\<close>

definition startsWith :: "string \<Rightarrow> string \<Rightarrow> bool" where
  "startsWith s p = (take (length p) s = p)"

definition endsWith :: "string \<Rightarrow> string \<Rightarrow> bool" where
  "endsWith s p = (length p \<le> length s \<and> drop (length s - length p) s = p)"

text \<open>
  \<^verbatim>\<open>toLowerCase\<close> on the letters A to Z; every other character is left as it is.
  The script compares the result with ASCII words only.
\<close>

definition lower_char :: "char \<Rightarrow> char" where
  "lower_char c =
     (case map_of (zip ''ABCDEFGHIJKLMNOPQRSTUVWXYZ'' ''abcdefghijklmnopqrstuvwxyz'') c of
        Some d \<Rightarrow> d
      | None \<Rightarrow> c)"

definition toLowerCase :: "string \<Rightarrow> string" where
  "toLowerCase s = map lower_char s"

text \<open>
  \<^verbatim>\<open>path.basename(p)\<close>: trailing slashes are skipped, then the characters back to
  the previous slash are the last segment.
\<close>

definition path_basename :: "string \<Rightarrow> string" where
  "path_basename p =
     rev (takeWhile (\<lambda>c. c \<noteq> CHR ''/'') (dropWhile (\<lambda>c. c = CHR ''/'') (rev p)))"

text \<open>
  \<^verbatim>\<open>path.extname(p)\<close>: from the last dot of the last segment to its end; empty when
  the segment has no dot, when its only dot is its first character, and for \<^verbatim>\<open>..\<close>.
\<close>

definition path_extname :: "string \<Rightarrow> string" where
  "path_extname p =
     (let b = path_basename p;
          t = takeWhile (\<lambda>c. c \<noteq> CHR ''.'') (rev b)
      in if length t = length b then ''''
         else if Suc (length t) = length b then ''''
         else if b = ''..'' then ''''
         else drop (length b - Suc (length t)) b)"

text \<open>\<^verbatim>\<open>path.parse(p).name\<close>: the last segment without its extension.\<close>

definition path_parse_name :: "string \<Rightarrow> string" where
  "path_parse_name p =
     (let b = path_basename p in take (length b - length (path_extname p)) b)"

text \<open>
  \<^verbatim>\<open>path.join(d, f)\<close> for a normalised directory \<open>d\<close> and a single segment \<open>f\<close>
  that is neither \<^verbatim>\<open>.\<close> nor \<^verbatim>\<open>..\<close> (a directory entry's name, or a base name
  followed by \<^verbatim>\<open>.webp\<close>): one slash between the two.
\<close>

definition path_join :: "string \<Rightarrow> string \<Rightarrow> string" where
  "path_join d f = (if endsWith d ''/'' then d @ f else d @ ''/'' @ f)"

section \<open>Configuration\<close>

text \<open>\<^verbatim>\<open>path.join("./img/products/")\<close> normalises to the relative directory below.\<close>

definition IMG_DIR :: string where
  "IMG_DIR = ''img/products/''"

definition OPTIMIZED_IMG_DIR :: string where
  "OPTIMIZED_IMG_DIR = path_join IMG_DIR ''optimized''"

definition THUMBNAIL_DIR :: string where
  "THUMBNAIL_DIR = path_join IMG_DIR ''thumbnail''"

definition TRACKER_FILE :: string where
  "TRACKER_FILE = path_join IMG_DIR ''optimized_images.json''"

section \<open>JavaScript numbers\<close>

text \<open>
  A Number is an IEEE double. The script multiplies an integer by the literals
  \<^verbatim>\<open>0.03\<close> and \<^verbatim>\<open>0.8\<close> and rounds the product with \<^verbatim>\<open>Math.round\<close>. The double
  nearest to 0.03 is \<open>8646911284551352 / 2^58\<close>, the one nearest to 0.8 is
  \<open>7205759403792794 / 2^53\<close>. A product is computed exactly and then rounded to 53
  significant bits, ties to even; it is kept here as an integer number of units
  \<open>2^-k\<close>, where \<open>k\<close> is the exponent of the literal.
\<close>

definition round_to_double :: "int \<Rightarrow> int" where
  "round_to_double P =
     (let e = nat (bitlen P) - 53;
          q = P div 2 ^ e;
          r = P mod 2 ^ e
      in if 2 * r > 2 ^ e \<or> (2 * r = 2 ^ e \<and> odd q) then (q + 1) * 2 ^ e else q * 2 ^ e)"

definition double_mul :: "int \<Rightarrow> int \<Rightarrow> int" where
  "double_mul w M = sgn w * round_to_double (\<bar>w\<bar> * M)"

text \<open>
  \<^verbatim>\<open>Math.round\<close> of \<open>x / 2^k\<close>: the nearest integer, a tie going up, that is
  the floor of \<open>x / 2^k + 1/2\<close>.
\<close>

definition Math_round :: "nat \<Rightarrow> int \<Rightarrow> int" where
  "Math_round k x = (2 * x + 2 ^ k) div 2 ^ (k + 1)"

definition times_0_03 :: "int \<Rightarrow> int" where
  "times_0_03 w = double_mul w 8646911284551352"

definition times_0_8 :: "int \<Rightarrow> int" where
  "times_0_8 w = double_mul w 7205759403792794"

text \<open>An integer Number inside a template literal: its decimal digits.\<close>

fun digits :: "nat \<Rightarrow> string" where
  "digits n = (if n < 10 then [''0123456789'' ! n]
               else digits (n div 10) @ [''0123456789'' ! (n mod 10)])"

declare digits.simps [simp del]

definition number_toString :: "int \<Rightarrow> string" where
  "number_toString i = (if i < 0 then ''-'' @ digits (nat (- i)) else digits (nat i))"

section \<open>The watermark\<close>

definition fontSize_of :: "int \<Rightarrow> int" where
  "fontSize_of width = max (Math_round 58 (times_0_03 width)) 18"

definition padding_of :: "int \<Rightarrow> int" where
  "padding_of fontSize = Math_round 53 (times_0_8 fontSize)"

definition dq :: string where
  "dq = [CHR 0x22]"

definition createWatermarkSVG :: "int \<Rightarrow> int \<Rightarrow> string" where
  "createWatermarkSVG width height =
     (let fontSize = fontSize_of width;
          padding = padding_of fontSize
      in concat
        [''\<newline>    <svg width='', dq, number_toString width, dq,
           '' height='', dq, number_toString height, dq, ''>\<newline>'',
         ''      <text\<newline>'',
         ''        x='', dq, ''50%'', dq, ''\<newline>'',
         ''        y='', dq, number_toString (height - padding), dq, ''\<newline>'',
         ''        text-anchor='', dq, ''middle'', dq, ''\<newline>'',
         ''        font-size='', dq, number_toString fontSize, dq, ''\<newline>'',
         ''        fill='', dq, ''white'', dq, ''\<newline>'',
         ''        fill-opacity='', dq, ''0.45'', dq, ''\<newline>'',
         ''        font-family='', dq, ''Arial, Helvetica, sans-serif'', dq, ''\<newline>'',
         ''        style='', dq, ''letter-spacing: 1px;'', dq, ''\<newline>'',
         ''      >\<newline>'',
         ''        Sapna Shri Jewellers\<newline>'',
         ''      </text>\<newline>'',
         ''    </svg>\<newline>'',
         ''  ''])"

section \<open>The world outside the script\<close>

text \<open>
  An error object: \<^verbatim>\<open>error.code\<close> (absent on a \<^verbatim>\<open>SyntaxError\<close> or a
  \<^verbatim>\<open>TypeError\<close>) and \<^verbatim>\<open>error.message\<close>.
\<close>

record js_error =
  code :: "string option"
  message :: string

text \<open>What \<^verbatim>\<open>JSON.parse\<close> returns.\<close>

datatype json =
    JNull
  | JBool bool
  | JNum rat
  | JStr string
  | JArr "json list"
  | JObj "(string \<times> json) list"

text \<open>An entry of \<^verbatim>\<open>fs.readdir(dir, { withFileTypes: true })\<close>.\<close>

record dirent =
  name :: string
  isFile :: bool

text \<open>
  What \<^verbatim>\<open>sharp\<close> is given: a path, or the bytes of an image. A job is what one
  pipeline \<^verbatim>\<open>composite([{ input }]).webp({ quality })\<close> is asked to encode; the file it
  writes is determined by the job.
\<close>

datatype sharp_input = FromFile string | FromBuffer string

record sharp_job =
  job_input :: sharp_input
  job_overlay :: string
  job_quality :: nat

text \<open>
  The environment of one run: the clock, the faults of the file system, the JSON
  library, the listing of a directory, and the outcome of each \<^verbatim>\<open>sharp\<close> call.
  The source images are read only and the outputs go to two subdirectories, so these
  outcomes do not change while the script runs.
\<close>

record env =
  now :: string
  mkdir :: "string \<Rightarrow> js_error option"
  read_fault :: "string \<Rightarrow> js_error option"
  write_fault :: "string \<Rightarrow> js_error option"
  JSON_parse :: "string \<Rightarrow> js_error + json"
  JSON_stringify :: "json \<Rightarrow> string"
  not_iterable :: "json \<Rightarrow> js_error"
  readdir :: "string \<Rightarrow> js_error + dirent list"
  metadata :: "sharp_input \<Rightarrow> js_error + int \<times> int"
  resize_toBuffer :: "string \<Rightarrow> js_error + string"
  toFile :: "sharp_job \<Rightarrow> string \<Rightarrow> js_error option"

text \<open>Lines of the console, in the order they are printed.\<close>

datatype log_line =
    Starting string
  | TrackerHas nat
  | Found nat
  | Optimized string
  | FailedToOptimize string string
  | Thumbnail string
  | FailedThumbnail string string
  | ErrorReadingTracker string
  | Complete nat nat

text \<open>
  What the script changes: text files (the tracker file), the files written by
  \<^verbatim>\<open>toFile\<close> in \<^verbatim>\<open>optimizeImage\<close> and in \<^verbatim>\<open>createThumbnail\<close> (path and job,
  oldest first), and the console.
\<close>

record state =
  files :: "string \<rightharpoonup> string"
  optimized :: "(string \<times> sharp_job) list"
  thumbnails :: "(string \<times> sharp_job) list"
  console :: "log_line list"

definition console_log :: "log_line \<Rightarrow> state \<Rightarrow> state" where
  "console_log l s = s\<lparr>console := console s @ [l]\<rparr>"

definition ENOENT :: "string \<Rightarrow> js_error" where
  "ENOENT p = \<lparr>code = Some ''ENOENT'',
     message = ''ENOENT: no such file or directory, open '' @ [CHR 0x27] @ p @ [CHR 0x27]\<rparr>"

definition readFile :: "env \<Rightarrow> state \<Rightarrow> string \<Rightarrow> js_error + string" where
  "readFile e s p =
     (case read_fault e p of
        Some err \<Rightarrow> Inl err
      | None \<Rightarrow> (case files s p of None \<Rightarrow> Inl (ENOENT p) | Some data \<Rightarrow> Inr data))"

definition writeFile :: "env \<Rightarrow> state \<Rightarrow> string \<Rightarrow> string \<Rightarrow> js_error + state" where
  "writeFile e s p data =
     (case write_fault e p of
        Some err \<Rightarrow> Inl err
      | None \<Rightarrow> Inr (s\<lparr>files := (files s)(p \<mapsto> data)\<rparr>))"

section \<open>The tracker\<close>

text \<open>
  A \<^verbatim>\<open>Set\<close> is the list of its elements in insertion order. Membership is
  SameValueZero: primitives are compared by value, and two arrays or objects that
  \<^verbatim>\<open>JSON.parse\<close> built are never the same object.
\<close>

fun same_value_zero :: "json \<Rightarrow> json \<Rightarrow> bool" where
  "same_value_zero JNull JNull = True"
| "same_value_zero (JBool a) (JBool b) = (a = b)"
| "same_value_zero (JNum a) (JNum b) = (a = b)"
| "same_value_zero (JStr a) (JStr b) = (a = b)"
| "same_value_zero _ _ = False"

definition Set_has :: "json list \<Rightarrow> json \<Rightarrow> bool" where
  "Set_has s v = list_ex (\<lambda>x. same_value_zero x v) s"

definition Set_add :: "json list \<Rightarrow> json \<Rightarrow> json list" where
  "Set_add s v = (if Set_has s v then s else s @ [v])"

text \<open>
  \<^verbatim>\<open>new Set(v)\<close>: the elements of an array, the characters of a string, nothing for
  \<^verbatim>\<open>null\<close>; any other value is not iterable and a \<^verbatim>\<open>TypeError\<close> is thrown.
\<close>

definition new_Set :: "env \<Rightarrow> json \<Rightarrow> js_error + json list" where
  "new_Set e v =
     (case v of
        JArr xs \<Rightarrow> Inr (foldl Set_add [] xs)
      | JStr cs \<Rightarrow> Inr (foldl Set_add [] (map (\<lambda>c. JStr [c]) cs))
      | JNull \<Rightarrow> Inr []
      | _ \<Rightarrow> Inl (not_iterable e v))"

text \<open>The \<^verbatim>\<open>try\<close> block of \<^verbatim>\<open>getOptimizedTracker\<close>, then the function with its \<^verbatim>\<open>catch\<close>.\<close>

definition getOptimizedTracker_try :: "env \<Rightarrow> state \<Rightarrow> js_error + json list" where
  "getOptimizedTracker_try e s =
     (case readFile e s TRACKER_FILE of
        Inl err \<Rightarrow> Inl err
      | Inr data \<Rightarrow>
          (case JSON_parse e data of
             Inl err \<Rightarrow> Inl err
           | Inr list \<Rightarrow> new_Set e list))"

definition getOptimizedTracker :: "env \<Rightarrow> state \<Rightarrow> js_error + json list \<times> state" where
  "getOptimizedTracker e s =
     (case getOptimizedTracker_try e s of
        Inr trackerSet \<Rightarrow> Inr (trackerSet, s)
      | Inl error \<Rightarrow>
          if code error = Some ''ENOENT'' then Inr ([], s)
          else Inr ([], console_log (ErrorReadingTracker (message error)) s))"

definition updateOptimizedTracker :: "env \<Rightarrow> state \<Rightarrow> json list \<Rightarrow> js_error + state" where
  "updateOptimizedTracker e s trackerSet =
     (let list = JArr trackerSet
      in writeFile e s TRACKER_FILE (JSON_stringify e list))"

section \<open>The converter\<close>

text \<open>
  The \<^verbatim>\<open>try\<close> block of \<^verbatim>\<open>optimizeImage\<close>: read the dimensions, build the watermark,
  composite and encode into \<open>outputPath\<close>, then log and add the file name to the set.
\<close>

definition optimizeImage_try ::
  "env \<Rightarrow> string \<Rightarrow> string \<Rightarrow> string \<Rightarrow> json list \<times> state \<Rightarrow> js_error + json list \<times> state"
where
  "optimizeImage_try e inputPath filename outputPath ts =
     (case ts of (trackerSet, s) \<Rightarrow>
      (case metadata e (FromFile inputPath) of
         Inl err \<Rightarrow> Inl err
       | Inr (width, height) \<Rightarrow>
           (let watermarkSVG = createWatermarkSVG width height;
                job = \<lparr>job_input = FromFile inputPath, job_overlay = watermarkSVG,
                         job_quality = 80\<rparr>
            in case toFile e job outputPath of
                 Some err \<Rightarrow> Inl err
               | None \<Rightarrow>
                   Inr (Set_add trackerSet (JStr filename),
                        console_log (Optimized filename)
                          (s\<lparr>optimized := optimized s @ [(outputPath, job)]\<rparr>)))))"

definition optimizeImage ::
  "env \<Rightarrow> string \<Rightarrow> string \<Rightarrow> json list \<times> state \<Rightarrow> js_error + json list \<times> state"
where
  "optimizeImage e inputPath filename ts =
     (case ts of (trackerSet, s) \<Rightarrow>
      if Set_has trackerSet (JStr filename) then Inr (trackerSet, s)
      else
        (let ext = toLowerCase (path_extname filename)
         in if ext = ''.webp'' then Inr (trackerSet, s)
            else
              (let baseName = path_parse_name filename;
                   outputPath = path_join OPTIMIZED_IMG_DIR (baseName @ ''.webp'')
               in case optimizeImage_try e inputPath filename outputPath (trackerSet, s) of
                    Inr ts' \<Rightarrow> Inr ts'
                  | Inl error \<Rightarrow>
                      Inr (trackerSet,
                           console_log (FailedToOptimize filename (message error)) s))))"

text \<open>
  The \<^verbatim>\<open>try\<close> block of \<^verbatim>\<open>createThumbnail\<close>: resize into a buffer, read the
  dimensions of the buffer, build the watermark for them, composite and encode into
  \<open>thumbPath\<close>.
\<close>

definition createThumbnail_try ::
  "env \<Rightarrow> string \<Rightarrow> string \<Rightarrow> string \<Rightarrow> state \<Rightarrow> js_error + state"
where
  "createThumbnail_try e inputPath filename thumbPath s =
     (case resize_toBuffer e inputPath of
        Inl err \<Rightarrow> Inl err
      | Inr resizedBuffer \<Rightarrow>
          (case metadata e (FromBuffer resizedBuffer) of
             Inl err \<Rightarrow> Inl err
           | Inr (width, height) \<Rightarrow>
               (let watermarkSVG = createWatermarkSVG width height;
                    job = \<lparr>job_input = FromBuffer resizedBuffer, job_overlay = watermarkSVG,
                             job_quality = 80\<rparr>
                in case toFile e job thumbPath of
                     Some err \<Rightarrow> Inl err
                   | None \<Rightarrow>
                       Inr (console_log (Thumbnail filename)
                              (s\<lparr>thumbnails := thumbnails s @ [(thumbPath, job)]\<rparr>)))))"

definition createThumbnail :: "env \<Rightarrow> string \<Rightarrow> string \<Rightarrow> state \<Rightarrow> js_error + state" where
  "createThumbnail e inputPath filename s =
     (let baseName = path_parse_name filename;
          thumbPath = path_join THUMBNAIL_DIR (baseName @ ''.webp'')
      in case createThumbnail_try e inputPath filename thumbPath s of
           Inr s' \<Rightarrow> Inr s'
         | Inl error \<Rightarrow> Inr (console_log (FailedThumbnail filename (message error)) s))"

section \<open>The orchestrator\<close>

text \<open>The filter of \<^verbatim>\<open>runOptimization\<close> on the entries of the image directory.\<close>

definition is_image_file :: "dirent \<Rightarrow> bool" where
  "is_image_file f =
     (isFile f \<and>
      \<not> startsWith (name f) ''.'' \<and>
      \<not> endsWith (name f) ''.webp'' \<and>
      \<not> endsWith (name f) (path_basename TRACKER_FILE) \<and>
      toLowerCase (drop 1 (path_extname (name f))) \<in> set [''jpg'', ''jpeg'', ''png'', ''gif''])"

definition imageFiles_of :: "dirent list \<Rightarrow> string list" where
  "imageFiles_of entries = map name (filter is_image_file entries)"

text \<open>
  The \<^verbatim>\<open>for\<close> loop: the counter, the set and the state go from one file to the
  next.
\<close>

fun process_files ::
  "env \<Rightarrow> string list \<Rightarrow> nat \<times> json list \<times> state \<Rightarrow> js_error + nat \<times> json list \<times> state"
where
  "process_files e [] acc = Inr acc"
| "process_files e (file # rest) (processedCount, trackerSet, s) =
     (let fullPath = path_join IMG_DIR file
      in case (if \<not> Set_has trackerSet (JStr file)
               then (case optimizeImage e fullPath file (trackerSet, s) of
                       Inl err \<Rightarrow> Inl err
                     | Inr (trackerSet', s') \<Rightarrow> Inr (processedCount + 1, trackerSet', s'))
               else Inr (processedCount, trackerSet, s)) of
           Inl err \<Rightarrow> Inl err
         | Inr (processedCount', trackerSet', s') \<Rightarrow>
             (case createThumbnail e fullPath file s' of
                Inl err \<Rightarrow> Inl err
              | Inr s'' \<Rightarrow> process_files e rest (processedCount', trackerSet', s'')))"

definition runOptimization :: "env \<Rightarrow> state \<Rightarrow> js_error + state" where
  "runOptimization e s0 =
     (let s1 = console_log (Starting (now e)) s0
      in case mkdir e OPTIMIZED_IMG_DIR of
           Some err \<Rightarrow> Inl err
         | None \<Rightarrow>
      (case mkdir e THUMBNAIL_DIR of
           Some err \<Rightarrow> Inl err
         | None \<Rightarrow>
      (case getOptimizedTracker e s1 of
           Inl err \<Rightarrow> Inl err
         | Inr (trackerSet, s2) \<Rightarrow>
      (let s3 = console_log (TrackerHas (length trackerSet)) s2
       in case readdir e IMG_DIR of
            Inl err \<Rightarrow> Inl err
          | Inr entries \<Rightarrow>
      (let imageFiles = imageFiles_of entries;
           s4 = console_log (Found (length imageFiles)) s3
       in case process_files e imageFiles (0, trackerSet, s4) of
            Inl err \<Rightarrow> Inl err
          | Inr (processedCount, trackerSet', s5) \<Rightarrow>
      (case updateOptimizedTracker e s5 trackerSet' of
            Inl err \<Rightarrow> Inl err
          | Inr s6 \<Rightarrow>
              Inr (console_log (Complete processedCount (length trackerSet')) s6)))))))"

section \<open>Vocabulary of the properties\<close>

text \<open>
  The output paths of a source file, and what the two \<^verbatim>\<open>sharp\<close> pipelines do with
  the file \<open>file\<close> of the image directory in the environment \<open>e\<close>: the job that was
  encoded and written, or the error that was thrown.
\<close>

definition optimized_path :: "string \<Rightarrow> string" where
  "optimized_path file = path_join OPTIMIZED_IMG_DIR (path_parse_name file @ ''.webp'')"

definition thumbnail_path :: "string \<Rightarrow> string" where
  "thumbnail_path file = path_join THUMBNAIL_DIR (path_parse_name file @ ''.webp'')"

definition optimize_outcome :: "env \<Rightarrow> string \<Rightarrow> js_error + sharp_job" where
  "optimize_outcome e file =
     (case metadata e (FromFile (path_join IMG_DIR file)) of
        Inl err \<Rightarrow> Inl err
      | Inr (width, height) \<Rightarrow>
          (let job = \<lparr>job_input = FromFile (path_join IMG_DIR file),
                       job_overlay = createWatermarkSVG width height, job_quality = 80\<rparr>
           in case toFile e job (optimized_path file) of
                Some err \<Rightarrow> Inl err
              | None \<Rightarrow> Inr job))"

definition thumbnail_outcome :: "env \<Rightarrow> string \<Rightarrow> js_error + sharp_job" where
  "thumbnail_outcome e file =
     (case resize_toBuffer e (path_join IMG_DIR file) of
        Inl err \<Rightarrow> Inl err
      | Inr resizedBuffer \<Rightarrow>
          (case metadata e (FromBuffer resizedBuffer) of
             Inl err \<Rightarrow> Inl err
           | Inr (width, height) \<Rightarrow>
               (let job = \<lparr>job_input = FromBuffer resizedBuffer,
                            job_overlay = createWatermarkSVG width height, job_quality = 80\<rparr>
                in case toFile e job (thumbnail_path file) of
                     Some err \<Rightarrow> Inl err
                   | None \<Rightarrow> Inr job)))"

definition converts :: "env \<Rightarrow> string \<Rightarrow> bool" where
  "converts e file = (\<not> isl (optimize_outcome e file))"

definition thumbnail_converts :: "env \<Rightarrow> string \<Rightarrow> bool" where
  "thumbnail_converts e file = (\<not> isl (thumbnail_outcome e file))"

definition untracked :: "json list \<Rightarrow> string list \<Rightarrow> string list" where
  "untracked t fs = filter (\<lambda>f. \<not> Set_has t (JStr f)) fs"

definition newly_optimized :: "env \<Rightarrow> json list \<Rightarrow> string list \<Rightarrow> string list" where
  "newly_optimized e t fs = filter (converts e) (untracked t fs)"

definition optimized_write :: "env \<Rightarrow> string \<Rightarrow> string \<times> sharp_job" where
  "optimized_write e file = (optimized_path file, projr (optimize_outcome e file))"

definition thumbnail_write :: "env \<Rightarrow> string \<Rightarrow> string \<times> sharp_job" where
  "thumbnail_write e file = (thumbnail_path file, projr (thumbnail_outcome e file))"

definition lines_of :: "env \<Rightarrow> json list \<Rightarrow> string \<Rightarrow> log_line list" where
  "lines_of e t file =
     (if Set_has t (JStr file) then []
      else [case optimize_outcome e file of
              Inr _ \<Rightarrow> Optimized file
            | Inl err \<Rightarrow> FailedToOptimize file (message err)]) @
     [case thumbnail_outcome e file of
        Inr _ \<Rightarrow> Thumbnail file
      | Inl err \<Rightarrow> FailedThumbnail file (message err)]"

definition after_loop ::
  "env \<Rightarrow> string list \<Rightarrow> nat \<times> json list \<times> state \<Rightarrow> nat \<times> json list \<times> state"
where
  "after_loop e fs acc =
     (case acc of (c, t, s) \<Rightarrow>
        (c + length (untracked t fs),
         t @ map JStr (newly_optimized e t fs),
         s\<lparr>optimized := optimized s @ map (optimized_write e) (newly_optimized e t fs),
           thumbnails := thumbnails s @ map (thumbnail_write e) (filter (thumbnail_converts e) fs),
           console := console s @ concat (map (lines_of e t) fs)\<rparr>))"

definition no_webp :: "string list \<Rightarrow> bool" where
  "no_webp fs = list_all (\<lambda>f. toLowerCase (path_extname f) \<noteq> ''.webp'') fs"

definition loaded_tracker :: "env \<Rightarrow> state \<Rightarrow> json list" where
  "loaded_tracker e s = (case getOptimizedTracker_try e s of Inr t \<Rightarrow> t | Inl _ \<Rightarrow> [])"

definition load_lines :: "env \<Rightarrow> state \<Rightarrow> log_line list" where
  "load_lines e s =
     (case getOptimizedTracker_try e s of
        Inr _ \<Rightarrow> []
      | Inl error \<Rightarrow>
          if code error = Some ''ENOENT'' then [] else [ErrorReadingTracker (message error)])"

definition no_fatal_fault :: "env \<Rightarrow> dirent list \<Rightarrow> bool" where
  "no_fatal_fault e entries =
     (mkdir e OPTIMIZED_IMG_DIR = None \<and> mkdir e THUMBNAIL_DIR = None \<and>
      readdir e IMG_DIR = Inr entries \<and> distinct (map name entries) \<and>
      write_fault e TRACKER_FILE = None)"

definition final_tracker :: "env \<Rightarrow> state \<Rightarrow> dirent list \<Rightarrow> json list" where
  "final_tracker e s0 entries =
     loaded_tracker e s0 @
     map JStr (newly_optimized e (loaded_tracker e s0) (imageFiles_of entries))"

definition run_result :: "env \<Rightarrow> state \<Rightarrow> dirent list \<Rightarrow> state" where
  "run_result e s0 entries =
     (let t0 = loaded_tracker e s0;
          fs = imageFiles_of entries;
          t' = final_tracker e s0 entries
      in s0\<lparr>files := (files s0)(TRACKER_FILE \<mapsto> JSON_stringify e (JArr t')),
           optimized := optimized s0 @ map (optimized_write e) (newly_optimized e t0 fs),
           thumbnails := thumbnails s0 @ map (thumbnail_write e) (filter (thumbnail_converts e) fs),
           console := console s0 @ [Starting (now e)] @ load_lines e s0 @
             [TrackerHas (length t0), Found (length fs)] @
             concat (map (lines_of e t0) fs) @
             [Complete (length (untracked t0 fs)) (length t')]\<rparr>)"

section \<open>An example directory\<close>

text \<open>
  A directory with two images that convert, one that cannot be decoded, one file that
  is already WebP and one subdirectory; a JSON library cut down to the three texts the
  example reads and writes; a state with no tracker file, and one whose tracker file
  names an image that is no longer in the directory.
\<close>

definition demo_entries :: "dirent list" where
  "demo_entries =
     [\<lparr>name = ''a.jpg'', isFile = True\<rparr>,
      \<lparr>name = ''bad.gif'', isFile = True\<rparr>,
      \<lparr>name = ''b.PNG'', isFile = True\<rparr>,
      \<lparr>name = ''c.webp'', isFile = True\<rparr>,
      \<lparr>name = ''optimized'', isFile = False\<rparr>]"

definition demo_parse :: "string \<Rightarrow> js_error + json" where
  \<open>demo_parse data =
     (if data = ''["old.jpg"]'' then Inr (JArr [JStr ''old.jpg''])
      else if data = ''["old.jpg","a.jpg","b.PNG"]''
      then Inr (JArr [JStr ''old.jpg'', JStr ''a.jpg'', JStr ''b.PNG''])
      else Inl \<lparr>code = None, message = ''Unexpected end of JSON input''\<rparr>)\<close>

definition demo_stringify :: "json \<Rightarrow> string" where
  \<open>demo_stringify v =
     (if v = JArr [JStr ''old.jpg'', JStr ''a.jpg'', JStr ''b.PNG'']
      then ''["old.jpg","a.jpg","b.PNG"]''
      else if v = JArr [JStr ''a.jpg'', JStr ''b.PNG''] then ''["a.jpg","b.PNG"]''
      else ''[]'')\<close>

definition demo_env :: env where
  "demo_env =
     \<lparr>now = ''2025-01-01T00:00:00.000Z'',
      mkdir = (\<lambda>_. None),
      read_fault = (\<lambda>_. None),
      write_fault = (\<lambda>_. None),
      JSON_parse = demo_parse,
      JSON_stringify = demo_stringify,
      not_iterable = (\<lambda>_. \<lparr>code = None, message = ''object is not iterable''\<rparr>),
      readdir = (\<lambda>_. Inr demo_entries),
      metadata = (\<lambda>i. case i of
          FromFile p \<Rightarrow>
            if p = ''img/products/bad.gif''
            then Inl \<lparr>code = None, message = ''Input file contains unsupported image format''\<rparr>
            else Inr (1000, 800)
        | FromBuffer b \<Rightarrow> Inr (400, 320)),
      resize_toBuffer = (\<lambda>p.
          if p = ''img/products/bad.gif''
          then Inl \<lparr>code = None, message = ''Input file contains unsupported image format''\<rparr>
          else Inr (''resized '' @ p)),
      toFile = (\<lambda>_ _. None)\<rparr>"

definition fresh_state :: state where
  "fresh_state = \<lparr>files = Map.empty, optimized = [], thumbnails = [], console = []\<rparr>"

definition tracked_state :: state where
  \<open>tracked_state = fresh_state\<lparr>files := [TRACKER_FILE \<mapsto> ''["old.jpg"]'']\<rparr>\<close>

text \<open>
  Variations of the example: a tracker file cut off in the middle, a tracker file that
  cannot be read, two images with the same base name, a directory where every image
  converts and a tracker file that already names them, and images of 400 by 320.
\<close>

definition corrupt_state :: state where
  \<open>corrupt_state = fresh_state\<lparr>files := [TRACKER_FILE \<mapsto> ''["old.jpg'']\<rparr>\<close>

definition unreadable_env :: env where
  "unreadable_env =
     demo_env\<lparr>read_fault :=
       (\<lambda>_. Some \<lparr>code = Some ''EACCES'', message = ''EACCES: permission denied''\<rparr>)\<rparr>"

definition collide_entries :: "dirent list" where
  "collide_entries = [\<lparr>name = ''a.jpg'', isFile = True\<rparr>, \<lparr>name = ''a.png'', isFile = True\<rparr>]"

definition collide_env :: env where
  "collide_env = demo_env\<lparr>readdir := (\<lambda>_. Inr collide_entries)\<rparr>"

definition good_entries :: "dirent list" where
  "good_entries =
     [\<lparr>name = ''a.jpg'', isFile = True\<rparr>,
      \<lparr>name = ''b.PNG'', isFile = True\<rparr>,
      \<lparr>name = ''c.webp'', isFile = True\<rparr>]"

definition good_env :: env where
  "good_env = demo_env\<lparr>readdir := (\<lambda>_. Inr good_entries)\<rparr>"

definition settled_state :: state where
  \<open>settled_state = fresh_state\<lparr>files := [TRACKER_FILE \<mapsto> ''["old.jpg","a.jpg","b.PNG"]'']\<rparr>\<close>

definition small_env :: env where
  "small_env = demo_env\<lparr>metadata := (\<lambda>_. Inr (400, 320))\<rparr>"

text \<open>
  A processing candidate in the words of the specification: a regular file, not
  hidden, not already in the output format, not the tracker file, with an extension in
  the allow-list.
\<close>

definition is_candidate :: "dirent \<Rightarrow> bool" where
  "is_candidate d =
     (isFile d \<and>
      \<not> startsWith (name d) ''.'' \<and>
      \<not> endsWith (name d) ''.webp'' \<and>
      name d \<noteq> ''optimized_images.json'' \<and>
      toLowerCase (drop 1 (path_extname (name d))) \<in> {''jpg'', ''jpeg'', ''png'', ''gif''})"

text \<open>A list that is a \<^verbatim>\<open>Set\<close>: no two of its elements are the same value.\<close>

fun svz_distinct :: "json list \<Rightarrow> bool" where
  "svz_distinct [] = True"
| "svz_distinct (x # xs) = (\<not> list_ex (same_value_zero x) xs \<and> svz_distinct xs)"

text \<open>
  The font size in the words of the specification, over the real numbers: the
  maximum of 3 percent of the width, rounded to the nearest integer, and the floor 18.
\<close>

definition spec_fontSize :: "int \<Rightarrow> int" where
  "spec_fontSize width = max (round (real_of_int width * 3 / 100)) 18"

section \<open>The steps and the loop in closed form\<close>

lemma Set_has_JStr: "Set_has t (JStr f) \<longleftrightarrow> JStr f \<in> set t"
proof -
  have "same_value_zero x (JStr f) \<longleftrightarrow> x = JStr f" for x
    by (cases x) auto
  then show ?thesis
    by (auto simp: Set_has_def list_ex_iff)
qed

lemma optimizeImage_char:
  "optimizeImage e (path_join IMG_DIR f) f (t, s) =
     Inr (if JStr f \<in> set t \<or> toLowerCase (path_extname f) = ''.webp'' then (t, s)
          else (case optimize_outcome e f of
                  Inr job \<Rightarrow>
                    (Set_add t (JStr f),
                     console_log (Optimized f) (s\<lparr>optimized := optimized s @ [(optimized_path f, job)]\<rparr>))
                | Inl err \<Rightarrow> (t, console_log (FailedToOptimize f (message err)) s)))"
  by (simp add: optimizeImage_def optimizeImage_try_def optimize_outcome_def optimized_path_def
      Set_has_JStr Let_def split: sum.splits option.splits prod.splits)

lemma createThumbnail_char:
  "createThumbnail e (path_join IMG_DIR f) f s =
     Inr (case thumbnail_outcome e f of
            Inr job \<Rightarrow>
              console_log (Thumbnail f) (s\<lparr>thumbnails := thumbnails s @ [(thumbnail_path f, job)]\<rparr>)
          | Inl err \<Rightarrow> console_log (FailedThumbnail f (message err)) s)"
  by (simp add: createThumbnail_def createThumbnail_try_def thumbnail_outcome_def thumbnail_path_def
      Let_def split: sum.splits option.splits prod.splits)

lemma untracked_Cons:
  "untracked t (f # fs) = (if JStr f \<in> set t then untracked t fs else f # untracked t fs)"
  by (simp add: untracked_def Set_has_JStr)

lemma untracked_snoc_tracker:
  "f \<notin> set fs \<Longrightarrow> untracked (t @ [JStr f]) fs = untracked t fs"
  by (auto simp: untracked_def Set_has_JStr intro: filter_cong)

lemma process_files_step:
  assumes "toLowerCase (path_extname f) \<noteq> ''.webp''"
  shows "process_files e (f # fs) (c, t, s) =
         process_files e fs (after_loop e [f] (c, t, s))"
  using assms
  by (simp add: optimizeImage_char createThumbnail_char after_loop_def untracked_def
      newly_optimized_def converts_def optimized_write_def thumbnail_write_def lines_of_def
      thumbnail_converts_def Set_has_JStr Set_add_def console_log_def
      split: sum.splits)

lemma after_loop_Cons:
  assumes "f \<notin> set fs"
  shows "after_loop e (f # fs) (c, t, s) = after_loop e fs (after_loop e [f] (c, t, s))"
proof -
  have u: "untracked (t @ [JStr f]) fs = untracked t fs"
    using assms by (rule untracked_snoc_tracker)
  have l: "map (lines_of e (t @ [JStr f])) fs = map (lines_of e t) fs"
    using assms by (auto simp: lines_of_def Set_has_JStr)
  have n: "untracked t' [] = []" for t'
    by (simp add: untracked_def)
  show ?thesis
    by (cases "JStr f \<in> set t"; cases "converts e f")
      (simp_all add: after_loop_def newly_optimized_def untracked_Cons u l n)
qed

lemma process_files_after_loop:
  assumes "distinct fs" and "no_webp fs"
  shows "process_files e fs acc = Inr (after_loop e fs acc)"
  using assms
proof (induction fs arbitrary: acc)
  case Nil
  show ?case
    by (cases acc) (simp add: after_loop_def untracked_def newly_optimized_def)
next
  case (Cons f fs)
  obtain c t s where acc: "acc = (c, t, s)"
    by (cases acc) auto
  from Cons.prems have f: "f \<notin> set fs" "distinct fs" "no_webp fs"
    "toLowerCase (path_extname f) \<noteq> ''.webp''"
    by (simp_all add: no_webp_def)
  show ?case
    unfolding acc
    by (simp only: process_files_step [OF f(4)] Cons.IH [OF f(2,3)] after_loop_Cons [OF f(1)])
qed

lemma toLowerCase_drop: "toLowerCase (drop n s) = drop n (toLowerCase s)"
  by (simp add: toLowerCase_def drop_map)

lemma is_image_file_not_webp:
  assumes "is_image_file d"
  shows "toLowerCase (path_extname (name d)) \<noteq> ''.webp''"
proof
  assume "toLowerCase (path_extname (name d)) = ''.webp''"
  then have "toLowerCase (drop 1 (path_extname (name d))) = ''webp''"
    by (simp add: toLowerCase_drop)
  with assms show False
    by (simp add: is_image_file_def)
qed

lemma no_webp_imageFiles: "no_webp (imageFiles_of entries)"
  by (auto simp: no_webp_def imageFiles_of_def list_all_iff dest: is_image_file_not_webp)

lemma distinct_imageFiles:
  "distinct (map name entries) \<Longrightarrow> distinct (imageFiles_of entries)"
  unfolding imageFiles_of_def by (rule distinct_map_filter)

lemma getOptimizedTracker_try_console [simp]:
  "getOptimizedTracker_try e (s\<lparr>console := ls\<rparr>) = getOptimizedTracker_try e s"
  by (simp add: getOptimizedTracker_try_def readFile_def split: option.splits)

lemma getOptimizedTracker_char:
  "getOptimizedTracker e s =
     Inr (loaded_tracker e s, s\<lparr>console := console s @ load_lines e s\<rparr>)"
  by (simp add: getOptimizedTracker_def loaded_tracker_def load_lines_def console_log_def
      split: sum.splits)

lemma loaded_tracker_console [simp]:
  "loaded_tracker e (s\<lparr>console := ls\<rparr>) = loaded_tracker e s"
  by (simp add: loaded_tracker_def)

lemma load_lines_console [simp]:
  "load_lines e (s\<lparr>console := ls\<rparr>) = load_lines e s"
  by (simp add: load_lines_def)

lemma runOptimization_char:
  assumes "no_fatal_fault e entries"
  shows "runOptimization e s0 = Inr (run_result e s0 entries)"
proof -
  from assms have m: "mkdir e OPTIMIZED_IMG_DIR = None" "mkdir e THUMBNAIL_DIR = None"
    and r: "readdir e IMG_DIR = Inr entries" and d: "distinct (map name entries)"
    and w: "write_fault e TRACKER_FILE = None"
    by (simp_all add: no_fatal_fault_def)
  have loop: "process_files e (imageFiles_of entries) acc =
      Inr (after_loop e (imageFiles_of entries) acc)" for acc
    by (rule process_files_after_loop [OF distinct_imageFiles [OF d] no_webp_imageFiles])
  show ?thesis
    by (simp add: runOptimization_def m r w loop getOptimizedTracker_char after_loop_def
        updateOptimizedTracker_def writeFile_def run_result_def final_tracker_def
        console_log_def Let_def)
qed

section \<open>The tracker only grows\<close>

lemma optimizeImage_tracker:
  "\<exists>t' s'. optimizeImage e p f (t, s) = Inr (t', s') \<and>
     (t' = t \<or> (t' = t @ [JStr f] \<and> JStr f \<notin> set t))"
  by (auto simp: optimizeImage_def optimizeImage_try_def Set_has_JStr Set_add_def Let_def
      split: sum.splits option.splits prod.splits)

lemma run_result_tracker_file:
  "files (run_result e s0 entries) TRACKER_FILE =
     Some (JSON_stringify e (JArr (final_tracker e s0 entries)))"
  by (simp add: run_result_def Let_def)

lemma getOptimizedTracker_loaded:
  "getOptimizedTracker e s0 = Inr (t0, s1) \<Longrightarrow> loaded_tracker e s0 = t0"
  by (simp add: getOptimizedTracker_char)

text \<open>
  Claim C10. Within a run the tracker set only grows. \<^verbatim>\<open>optimizeImage\<close> returns the
  set it was given, or that set with the file name added at the end, and nothing else
  changes the set. So when a run that meets no fatal fault loaded the set \<open>t0\<close>, it
  ends, and the array it writes to the tracker file is \<open>t0\<close> followed by names of
  image files of the directory: every entry that was loaded is written back, also
  the entries of files that are no longer in the directory.
\<close>

theorem tracker_only_grows:
  assumes "no_fatal_fault e entries"
    and "getOptimizedTracker e s0 = Inr (t0, s1)"
  shows "(\<exists>t1 s2. optimizeImage e p f (t, s) = Inr (t1, s2) \<and>
            (t1 = t \<or> t1 = t @ [JStr f])) \<and>
         (\<exists>s' added.
            runOptimization e s0 = Inr s' \<and>
            files s' TRACKER_FILE = Some (JSON_stringify e (JArr (t0 @ added))) \<and>
            set added \<subseteq> JStr ` set (imageFiles_of entries) \<and>
            set t0 \<subseteq> set (t0 @ added))"
proof
  from optimizeImage_tracker [of e p f t s]
  show "\<exists>t1 s2. optimizeImage e p f (t, s) = Inr (t1, s2) \<and> (t1 = t \<or> t1 = t @ [JStr f])"
    by blast
next
  let ?added = "map JStr (newly_optimized e t0 (imageFiles_of entries))"
  have t0: "loaded_tracker e s0 = t0"
    using assms(2) by (rule getOptimizedTracker_loaded)
  have "runOptimization e s0 = Inr (run_result e s0 entries)"
    using assms(1) by (rule runOptimization_char)
  moreover have "files (run_result e s0 entries) TRACKER_FILE =
      Some (JSON_stringify e (JArr (t0 @ ?added)))"
    by (simp add: run_result_tracker_file final_tracker_def t0)
  moreover have "set ?added \<subseteq> JStr ` set (imageFiles_of entries)"
    by (auto simp: newly_optimized_def untracked_def)
  ultimately show "\<exists>s' added.
      runOptimization e s0 = Inr s' \<and>
      files s' TRACKER_FILE = Some (JSON_stringify e (JArr (t0 @ added))) \<and>
      set added \<subseteq> JStr ` set (imageFiles_of entries) \<and>
      set t0 \<subseteq> set (t0 @ added)"
    by (intro exI [of _ "run_result e s0 entries"] exI [of _ ?added]) simp
qed

lemma demo_no_fatal_fault: "no_fatal_fault demo_env demo_entries"
  by (simp add: no_fatal_fault_def demo_env_def demo_entries_def)

lemma demo_tracked_load:
  "getOptimizedTracker demo_env tracked_state = Inr ([JStr ''old.jpg''], tracked_state)"
  by (simp add: getOptimizedTracker_def getOptimizedTracker_try_def readFile_def demo_env_def
      tracked_state_def fresh_state_def demo_parse_def new_Set_def Set_add_def Set_has_def)

theorem tracker_only_grows_witness:
  "no_fatal_fault demo_env demo_entries \<and>
   getOptimizedTracker demo_env tracked_state = Inr ([JStr ''old.jpg''], tracked_state) \<and>
   (\<exists>s' added.
      runOptimization demo_env tracked_state = Inr s' \<and>
      files s' TRACKER_FILE =
        Some (JSON_stringify demo_env (JArr ([JStr ''old.jpg''] @ added))) \<and>
      set added \<subseteq> JStr ` set (imageFiles_of demo_entries) \<and>
      set [JStr ''old.jpg''] \<subseteq> set ([JStr ''old.jpg''] @ added))"
  using tracker_only_grows [OF demo_no_fatal_fault demo_tracked_load]
    demo_no_fatal_fault demo_tracked_load
  by blast

section \<open>A missing or unreadable tracker file\<close>

lemma run_result_optimized:
  "optimized (run_result e s0 entries) =
     optimized s0 @
     map (optimized_write e) (newly_optimized e (loaded_tracker e s0) (imageFiles_of entries))"
  by (simp add: run_result_def Let_def)

lemma run_result_thumbnails:
  "thumbnails (run_result e s0 entries) =
     thumbnails s0 @
     map (thumbnail_write e) (filter (thumbnail_converts e) (imageFiles_of entries))"
  by (simp add: run_result_def Let_def)

lemma run_result_last_line:
  "last (console (run_result e s0 entries)) =
     Complete (length (untracked (loaded_tracker e s0) (imageFiles_of entries)))
       (length (final_tracker e s0 entries))"
  by (simp add: run_result_def Let_def)

lemma untracked_Nil_tracker: "untracked [] fs = fs"
  by (simp add: untracked_def Set_has_def)

lemma loaded_tracker_failure:
  "getOptimizedTracker_try e s = Inl err \<Longrightarrow> loaded_tracker e s = []"
  by (simp add: loaded_tracker_def)

text \<open>
  Claim C7. \<^verbatim>\<open>getOptimizedTracker\<close> never throws. When the tracker file does not
  exist it returns the empty set and prints nothing. A fault of the read, a text that
  \<^verbatim>\<open>JSON.parse\<close> rejects, and any other error \<open>err\<close> of the \<^verbatim>\<open>try\<close> block make it
  return the empty set as well, after one line on the console unless the code of
  \<open>err\<close> is \<^verbatim>\<open>ENOENT\<close>. A run that starts like this and meets no fatal fault treats
  every image file as new: it ends, it has written an optimized output for every
  image file that converts, and it reports every image file as processed.
\<close>

theorem tracker_load_never_fails:
  "(read_fault e TRACKER_FILE = None \<and> files s TRACKER_FILE = None \<longrightarrow>
      getOptimizedTracker e s = Inr ([], s)) \<and>
   (read_fault e TRACKER_FILE = Some err \<longrightarrow> getOptimizedTracker_try e s = Inl err) \<and>
   (readFile e s TRACKER_FILE = Inr data \<and> JSON_parse e data = Inl err \<longrightarrow>
      getOptimizedTracker_try e s = Inl err) \<and>
   (getOptimizedTracker_try e s = Inl err \<longrightarrow>
      getOptimizedTracker e s =
        Inr ([], if code err = Some ''ENOENT'' then s
                 else console_log (ErrorReadingTracker (message err)) s)) \<and>
   (getOptimizedTracker_try e s = Inl err \<and> no_fatal_fault e entries \<longrightarrow>
      (\<exists>s'. runOptimization e s = Inr s' \<and>
            optimized s' =
              optimized s @
              map (optimized_write e) (filter (converts e) (imageFiles_of entries)) \<and>
            last (console s') =
              Complete (length (imageFiles_of entries))
                (length (filter (converts e) (imageFiles_of entries)))))"
proof (intro conjI impI)
  assume "read_fault e TRACKER_FILE = None \<and> files s TRACKER_FILE = None"
  then show "getOptimizedTracker e s = Inr ([], s)"
    by (simp add: getOptimizedTracker_def getOptimizedTracker_try_def readFile_def ENOENT_def)
next
  assume "read_fault e TRACKER_FILE = Some err"
  then show "getOptimizedTracker_try e s = Inl err"
    by (simp add: getOptimizedTracker_try_def readFile_def)
next
  assume "readFile e s TRACKER_FILE = Inr data \<and> JSON_parse e data = Inl err"
  then show "getOptimizedTracker_try e s = Inl err"
    by (simp add: getOptimizedTracker_try_def)
next
  assume "getOptimizedTracker_try e s = Inl err"
  then show "getOptimizedTracker e s =
      Inr ([], if code err = Some ''ENOENT'' then s
               else console_log (ErrorReadingTracker (message err)) s)"
    by (simp add: getOptimizedTracker_def)
next
  assume a: "getOptimizedTracker_try e s = Inl err \<and> no_fatal_fault e entries"
  then have t0: "loaded_tracker e s = []"
    by (simp add: loaded_tracker_failure)
  have "runOptimization e s = Inr (run_result e s entries)"
    using a by (simp add: runOptimization_char)
  then show "\<exists>s'. runOptimization e s = Inr s' \<and>
      optimized s' =
        optimized s @ map (optimized_write e) (filter (converts e) (imageFiles_of entries)) \<and>
      last (console s') =
        Complete (length (imageFiles_of entries))
          (length (filter (converts e) (imageFiles_of entries)))"
    by (simp add: run_result_optimized run_result_last_line final_tracker_def t0
        newly_optimized_def untracked_Nil_tracker)
qed

lemma corrupt_read:
  \<open>readFile demo_env corrupt_state TRACKER_FILE = Inr ''["old.jpg''\<close>
  by (simp add: readFile_def demo_env_def corrupt_state_def fresh_state_def)

lemma corrupt_parse:
  \<open>JSON_parse demo_env ''["old.jpg'' =
     Inl \<lparr>code = None, message = ''Unexpected end of JSON input''\<rparr>\<close>
  by (simp add: demo_env_def demo_parse_def)

lemma demo_imageFiles: "imageFiles_of demo_entries = [''a.jpg'', ''bad.gif'', ''b.PNG'']"
  by (simp add: imageFiles_of_def is_image_file_def demo_entries_def startsWith_def
      endsWith_def path_extname_def path_basename_def toLowerCase_def lower_char_def
      TRACKER_FILE_def IMG_DIR_def path_join_def)

lemma demo_converts:
  "converts demo_env ''a.jpg''" "\<not> converts demo_env ''bad.gif''" "converts demo_env ''b.PNG''"
  by (simp_all add: converts_def optimize_outcome_def demo_env_def IMG_DIR_def path_join_def
      endsWith_def)

text \<open>
  The three cases on the example: no tracker file, a tracker file that cannot be
  read, a tracker file cut off in the middle.
\<close>

theorem tracker_load_never_fails_witness:
  \<open>(read_fault demo_env TRACKER_FILE = None \<and> files fresh_state TRACKER_FILE = None) \<and>
   getOptimizedTracker demo_env fresh_state = Inr ([], fresh_state) \<and>
   read_fault unreadable_env TRACKER_FILE =
     Some \<lparr>code = Some ''EACCES'', message = ''EACCES: permission denied''\<rparr> \<and>
   getOptimizedTracker_try unreadable_env fresh_state =
     Inl \<lparr>code = Some ''EACCES'', message = ''EACCES: permission denied''\<rparr> \<and>
   (readFile demo_env corrupt_state TRACKER_FILE = Inr ''["old.jpg'' \<and>
    JSON_parse demo_env ''["old.jpg'' =
      Inl \<lparr>code = None, message = ''Unexpected end of JSON input''\<rparr>) \<and>
   getOptimizedTracker_try demo_env corrupt_state =
     Inl \<lparr>code = None, message = ''Unexpected end of JSON input''\<rparr> \<and>
   getOptimizedTracker demo_env corrupt_state =
     Inr ([], console_log (ErrorReadingTracker ''Unexpected end of JSON input'') corrupt_state) \<and>
   no_fatal_fault demo_env demo_entries \<and>
   (\<exists>s'. runOptimization demo_env corrupt_state = Inr s' \<and>
         optimized s' =
           optimized corrupt_state @
           map (optimized_write demo_env) (filter (converts demo_env) (imageFiles_of demo_entries)) \<and>
         last (console s') =
           Complete (length (imageFiles_of demo_entries))
             (length (filter (converts demo_env) (imageFiles_of demo_entries))))\<close>
proof -
  let ?eacces = "\<lparr>code = Some ''EACCES'', message = ''EACCES: permission denied''\<rparr>"
  let ?rejected = "\<lparr>code = None, message = ''Unexpected end of JSON input''\<rparr>"
  have missing: "read_fault demo_env TRACKER_FILE = None \<and> files fresh_state TRACKER_FILE = None"
    by (simp add: demo_env_def fresh_state_def)
  have fault: "read_fault unreadable_env TRACKER_FILE = Some ?eacces"
    by (simp add: unreadable_env_def)
  have corrupt: "readFile demo_env corrupt_state TRACKER_FILE = Inr (CHR ''['' # dq @ ''old.jpg'') \<and>
      JSON_parse demo_env (CHR ''['' # dq @ ''old.jpg'') = Inl ?rejected"
    by (simp add: corrupt_read corrupt_parse dq_def)
  note a = tracker_load_never_fails [of demo_env fresh_state ?eacces "[]" demo_entries]
  note b = tracker_load_never_fails [of unreadable_env fresh_state ?eacces "[]" demo_entries]
  note c = tracker_load_never_fails
    [of demo_env corrupt_state ?rejected "CHR ''['' # dq @ ''old.jpg''" demo_entries]
  from c corrupt have tr: "getOptimizedTracker_try demo_env corrupt_state = Inl ?rejected"
    by blast
  from a missing have 1: "getOptimizedTracker demo_env fresh_state = Inr ([], fresh_state)"
    by blast
  from b fault have 2: "getOptimizedTracker_try unreadable_env fresh_state = Inl ?eacces"
    by blast
  from c tr have 3: "getOptimizedTracker demo_env corrupt_state =
      Inr ([], console_log (ErrorReadingTracker ''Unexpected end of JSON input'') corrupt_state)"
    by simp
  from c tr demo_no_fatal_fault
  have 4: "\<exists>s'. runOptimization demo_env corrupt_state = Inr s' \<and>
         optimized s' =
           optimized corrupt_state @
           map (optimized_write demo_env) (filter (converts demo_env) (imageFiles_of demo_entries)) \<and>
         last (console s') =
           Complete (length (imageFiles_of demo_entries))
             (length (filter (converts demo_env) (imageFiles_of demo_entries)))"
    by blast
  from missing 1 fault 2 corrupt tr 3 demo_no_fatal_fault 4 show ?thesis
    by (simp add: dq_def)
qed

section \<open>A failed optimization\<close>

lemma converts_iff_try:
  "converts e f \<longleftrightarrow>
     \<not> isl (optimizeImage_try e (path_join IMG_DIR f) f (optimized_path f) (t, s))"
  by (simp add: converts_def optimize_outcome_def optimizeImage_try_def Let_def
      split: sum.splits option.splits prod.splits)

lemma final_tracker_mem:
  "JStr f \<in> set (final_tracker e s0 entries) \<longleftrightarrow>
     JStr f \<in> set (loaded_tracker e s0) \<or>
     (f \<in> set (imageFiles_of entries) \<and> converts e f)"
  by (auto simp: final_tracker_def newly_optimized_def untracked_def Set_has_JStr)

text \<open>
  Claim C2. When the \<^verbatim>\<open>try\<close> block of \<^verbatim>\<open>optimizeImage\<close> throws \<open>err\<close> (the image
  cannot be decoded, the composite or the encoding fails, the file cannot be written),
  \<^verbatim>\<open>optimizeImage\<close> returns normally, with the set it was given and one more line on
  the console. An image file converts exactly when that block does not throw for it.
  So a run that meets no fatal fault ends whatever images fail, and the array it
  writes to the tracker file holds, of the image files that were not tracked at the
  start, those that convert and none of those that fail.
\<close>

theorem failed_optimization_is_contained:
  "(optimizeImage_try e p f (path_join OPTIMIZED_IMG_DIR (path_parse_name f @ ''.webp'')) (t, s)
      = Inl err \<and>
    \<not> Set_has t (JStr f) \<and> toLowerCase (path_extname f) \<noteq> ''.webp'' \<longrightarrow>
    optimizeImage e p f (t, s) = Inr (t, console_log (FailedToOptimize f (message err)) s)) \<and>
   (converts e f \<longleftrightarrow>
      \<not> isl (optimizeImage_try e (path_join IMG_DIR f) f
        (path_join OPTIMIZED_IMG_DIR (path_parse_name f @ ''.webp'')) (t, s))) \<and>
   (no_fatal_fault e entries \<and> getOptimizedTracker e s0 = Inr (t0, s1) \<longrightarrow>
    (\<exists>s' t'. runOptimization e s0 = Inr s' \<and>
       files s' TRACKER_FILE = Some (JSON_stringify e (JArr t')) \<and>
       (\<forall>g \<in> set (imageFiles_of entries).
          JStr g \<notin> set t0 \<longrightarrow> (JStr g \<in> set t' \<longleftrightarrow> converts e g))))"
proof (intro conjI impI)
  assume "optimizeImage_try e p f (path_join OPTIMIZED_IMG_DIR (path_parse_name f @ ''.webp''))
      (t, s) = Inl err \<and> \<not> Set_has t (JStr f) \<and> toLowerCase (path_extname f) \<noteq> ''.webp''"
  then show "optimizeImage e p f (t, s) =
      Inr (t, console_log (FailedToOptimize f (message err)) s)"
    by (simp add: optimizeImage_def)
next
  show "converts e f \<longleftrightarrow>
      \<not> isl (optimizeImage_try e (path_join IMG_DIR f) f
        (path_join OPTIMIZED_IMG_DIR (path_parse_name f @ ''.webp'')) (t, s))"
    using converts_iff_try [of e f t s] by (simp add: optimized_path_def)
next
  assume a: "no_fatal_fault e entries \<and> getOptimizedTracker e s0 = Inr (t0, s1)"
  then have t0: "loaded_tracker e s0 = t0"
    by (simp add: getOptimizedTracker_loaded)
  have "runOptimization e s0 = Inr (run_result e s0 entries)"
    using a by (simp add: runOptimization_char)
  moreover have "\<forall>g \<in> set (imageFiles_of entries).
      JStr g \<notin> set t0 \<longrightarrow> (JStr g \<in> set (final_tracker e s0 entries) \<longleftrightarrow> converts e g)"
    by (simp add: final_tracker_mem t0)
  ultimately show "\<exists>s' t'. runOptimization e s0 = Inr s' \<and>
       files s' TRACKER_FILE = Some (JSON_stringify e (JArr t')) \<and>
       (\<forall>g \<in> set (imageFiles_of entries).
          JStr g \<notin> set t0 \<longrightarrow> (JStr g \<in> set t' \<longleftrightarrow> converts e g))"
    using run_result_tracker_file [of e s0 entries] by blast
qed

lemma length_newly_optimized:
  "length (untracked t fs) =
     length (newly_optimized e t fs) + length (filter (\<lambda>f. \<not> converts e f) (untracked t fs))"
  unfolding newly_optimized_def by (rule sum_length_filter_compl [symmetric])

lemma demo_fresh_load: "getOptimizedTracker demo_env fresh_state = Inr ([], fresh_state)"
  by (simp add: getOptimizedTracker_def getOptimizedTracker_try_def readFile_def demo_env_def
      fresh_state_def ENOENT_def)

lemma demo_bad_gif_try:
  "optimizeImage_try demo_env (path_join IMG_DIR ''bad.gif'') ''bad.gif''
     (path_join OPTIMIZED_IMG_DIR (path_parse_name ''bad.gif'' @ ''.webp'')) ([], fresh_state) =
   Inl \<lparr>code = None, message = ''Input file contains unsupported image format''\<rparr>"
  by (simp add: optimizeImage_try_def demo_env_def IMG_DIR_def path_join_def endsWith_def)

lemma demo_bad_gif_ext: "toLowerCase (path_extname ''bad.gif'') \<noteq> ''.webp''"
  by (simp add: toLowerCase_def path_extname_def path_basename_def lower_char_def)

text \<open>
  On the example: \<^verbatim>\<open>bad.gif\<close> fails, the two other images are in the array written.
\<close>

theorem failed_optimization_is_contained_witness:
  "(optimizeImage_try demo_env (path_join IMG_DIR ''bad.gif'') ''bad.gif''
      (path_join OPTIMIZED_IMG_DIR (path_parse_name ''bad.gif'' @ ''.webp'')) ([], fresh_state) =
      Inl \<lparr>code = None, message = ''Input file contains unsupported image format''\<rparr> \<and>
    \<not> Set_has [] (JStr ''bad.gif'') \<and> toLowerCase (path_extname ''bad.gif'') \<noteq> ''.webp'') \<and>
   optimizeImage demo_env (path_join IMG_DIR ''bad.gif'') ''bad.gif'' ([], fresh_state) =
     Inr ([], console_log
       (FailedToOptimize ''bad.gif'' ''Input file contains unsupported image format'')
       fresh_state) \<and>
   (no_fatal_fault demo_env demo_entries \<and>
    getOptimizedTracker demo_env fresh_state = Inr ([], fresh_state)) \<and>
   (\<exists>s' t'. runOptimization demo_env fresh_state = Inr s' \<and>
      files s' TRACKER_FILE = Some (JSON_stringify demo_env (JArr t')) \<and>
      JStr ''a.jpg'' \<in> set t' \<and> JStr ''bad.gif'' \<notin> set t' \<and> JStr ''b.PNG'' \<in> set t')"
proof -
  let ?err = "\<lparr>code = None, message = ''Input file contains unsupported image format''\<rparr>"
  note th = failed_optimization_is_contained
    [of demo_env "path_join IMG_DIR ''bad.gif''" "''bad.gif''" "[]" fresh_state ?err
      demo_entries fresh_state "[]" fresh_state]
  have h1: "optimizeImage_try demo_env (path_join IMG_DIR ''bad.gif'') ''bad.gif''
      (path_join OPTIMIZED_IMG_DIR (path_parse_name ''bad.gif'' @ ''.webp'')) ([], fresh_state) =
      Inl ?err \<and>
    \<not> Set_has [] (JStr ''bad.gif'') \<and> toLowerCase (path_extname ''bad.gif'') \<noteq> ''.webp''"
    using demo_bad_gif_try demo_bad_gif_ext by (simp add: Set_has_def)
  have h2: "no_fatal_fault demo_env demo_entries \<and>
      getOptimizedTracker demo_env fresh_state = Inr ([], fresh_state)"
    using demo_no_fatal_fault demo_fresh_load by simp
  from th h1 have c1: "optimizeImage demo_env (path_join IMG_DIR ''bad.gif'') ''bad.gif''
      ([], fresh_state) =
      Inr ([], console_log (FailedToOptimize ''bad.gif'' (message ?err)) fresh_state)"
    by blast
  from th h2 obtain s' t' where r: "runOptimization demo_env fresh_state = Inr s'"
      "files s' TRACKER_FILE = Some (JSON_stringify demo_env (JArr t'))"
      "\<forall>g \<in> set (imageFiles_of demo_entries).
          JStr g \<notin> set [] \<longrightarrow> (JStr g \<in> set t' \<longleftrightarrow> converts demo_env g)"
    by blast
  from r(3) have "JStr ''a.jpg'' \<in> set t' \<and> JStr ''bad.gif'' \<notin> set t' \<and> JStr ''b.PNG'' \<in> set t'"
    by (simp add: demo_imageFiles demo_converts)
  with r(1,2) have c2: "\<exists>s' t'. runOptimization demo_env fresh_state = Inr s' \<and>
      files s' TRACKER_FILE = Some (JSON_stringify demo_env (JArr t')) \<and>
      JStr ''a.jpg'' \<in> set t' \<and> JStr ''bad.gif'' \<notin> set t' \<and> JStr ''b.PNG'' \<in> set t'"
    by blast
  from h1 c1 h2 c2 show ?thesis
    by simp
qed

section \<open>The count of processed images\<close>

text \<open>
  Claim C3 says that the count reported at the end is the number of images optimized
  in this run. On the example, started with no tracker file, the last line reports 3
  processed images, and 2 outputs were written: the counter is incremented after each
  call of \<^verbatim>\<open>optimizeImage\<close>, which returns nothing and throws nothing when it fails.
\<close>

theorem processed_count_counterexample:
  "last (console (projr (runOptimization demo_env fresh_state))) = Complete 3 2 \<and>
   length (optimized (projr (runOptimization demo_env fresh_state))) = 2 \<and>
   optimized fresh_state = []"
proof -
  have t0: "loaded_tracker demo_env fresh_state = []"
    using demo_fresh_load by (rule getOptimizedTracker_loaded)
  have "runOptimization demo_env fresh_state = Inr (run_result demo_env fresh_state demo_entries)"
    using demo_no_fatal_fault by (rule runOptimization_char)
  moreover have "optimized fresh_state = []"
    by (simp add: fresh_state_def)
  ultimately show ?thesis
    by (simp add: run_result_last_line run_result_optimized final_tracker_def t0
        newly_optimized_def untracked_Nil_tracker demo_imageFiles demo_converts)
qed

text \<open>
  Claim C3, amended. The last line of a run that meets no fatal fault reports \<open>c\<close>
  and \<open>n\<close>, where \<open>c\<close> is the number of image files that were not in the set loaded
  at the start, that is the number of outputs written in this run plus the number of
  untracked image files that failed to convert, and \<open>n\<close> is the size of the array
  written to the tracker file.
\<close>

theorem processed_count_counts_attempts:
  assumes "no_fatal_fault e entries"
    and "getOptimizedTracker e s0 = Inr (t0, s1)"
  shows "\<exists>s' c n t'.
      runOptimization e s0 = Inr s' \<and>
      last (console s') = Complete c n \<and>
      c = length (filter (\<lambda>f. JStr f \<notin> set t0) (imageFiles_of entries)) \<and>
      c = (length (optimized s') - length (optimized s0)) +
          length (filter (\<lambda>f. JStr f \<notin> set t0 \<and> \<not> converts e f) (imageFiles_of entries)) \<and>
      files s' TRACKER_FILE = Some (JSON_stringify e (JArr t')) \<and>
      n = length t'"
proof -
  have t0: "loaded_tracker e s0 = t0"
    using assms(2) by (rule getOptimizedTracker_loaded)
  have u: "untracked t0 fs = filter (\<lambda>f. JStr f \<notin> set t0) fs" for fs
    by (simp add: untracked_def Set_has_JStr)
  have run: "runOptimization e s0 = Inr (run_result e s0 entries)"
    using assms(1) by (rule runOptimization_char)
  have split: "length (filter (\<lambda>f. JStr f \<notin> set t0) (imageFiles_of entries)) =
      (length (optimized (run_result e s0 entries)) - length (optimized s0)) +
      length (filter (\<lambda>f. JStr f \<notin> set t0 \<and> \<not> converts e f) (imageFiles_of entries))"
    using length_newly_optimized [of t0 "imageFiles_of entries" e]
    by (simp add: run_result_optimized t0 u conj_commute)
  have line: "last (console (run_result e s0 entries)) =
      Complete (length (filter (\<lambda>f. JStr f \<notin> set t0) (imageFiles_of entries)))
        (length (final_tracker e s0 entries))"
    by (simp add: run_result_last_line t0 u)
  show ?thesis
    using run line split run_result_tracker_file [of e s0 entries] by blast
qed

text \<open>
  The amended claim on the example.
\<close>

theorem processed_count_counts_attempts_witness:
  "no_fatal_fault demo_env demo_entries \<and>
   getOptimizedTracker demo_env fresh_state = Inr ([], fresh_state) \<and>
   (\<exists>s' c n t'.
      runOptimization demo_env fresh_state = Inr s' \<and>
      last (console s') = Complete c n \<and>
      c = length (filter (\<lambda>f. JStr f \<notin> set []) (imageFiles_of demo_entries)) \<and>
      c = (length (optimized s') - length (optimized fresh_state)) +
          length (filter (\<lambda>f. JStr f \<notin> set [] \<and> \<not> converts demo_env f)
            (imageFiles_of demo_entries)) \<and>
      files s' TRACKER_FILE = Some (JSON_stringify demo_env (JArr t')) \<and>
      n = length t')"
  using processed_count_counts_attempts [OF demo_no_fatal_fault demo_fresh_load]
    demo_no_fatal_fault demo_fresh_load
  by blast

section \<open>Thumbnails are made on every run\<close>

lemma thumbnail_line_in_lines_of:
  "Thumbnail f \<in> set (lines_of e t f) \<or> (\<exists>m. FailedThumbnail f m \<in> set (lines_of e t f))"
  by (cases "thumbnail_outcome e f") (auto simp: lines_of_def)

lemma run_result_console:
  "console (run_result e s0 entries) =
     console s0 @ [Starting (now e)] @ load_lines e s0 @
       [TrackerHas (length (loaded_tracker e s0)), Found (length (imageFiles_of entries))] @
       concat (map (lines_of e (loaded_tracker e s0)) (imageFiles_of entries)) @
       [Complete (length (untracked (loaded_tracker e s0) (imageFiles_of entries)))
          (length (final_tracker e s0 entries))]"
  by (simp add: run_result_def Let_def)

lemma untracked_all_tracked:
  "\<forall>f \<in> set fs. JStr f \<in> set t \<Longrightarrow> untracked t fs = []"
  by (simp add: untracked_def Set_has_JStr)

text \<open>
  Claim C5. A run that meets no fatal fault calls \<^verbatim>\<open>createThumbnail\<close> for every image
  file, tracked or not: it prints a thumbnail line or a thumbnail failure for each,
  and the thumbnails it writes are those of the image files whose thumbnail pipeline
  succeeds, in the order of the listing. Neither the outcome of a thumbnail nor the
  file written depends on the tracker set, and \<^verbatim>\<open>createThumbnail\<close> has no access to
  it. When every image file is already in the set loaded at the start, the run writes
  no optimized output and writes the loaded set back, and still writes the
  thumbnails.
\<close>

theorem thumbnails_regenerated_every_run:
  assumes "no_fatal_fault e entries"
    and "getOptimizedTracker e s0 = Inr (t0, s1)"
  shows "\<exists>s' ls.
      runOptimization e s0 = Inr s' \<and>
      thumbnails s' =
        thumbnails s0 @
        map (thumbnail_write e) (filter (thumbnail_converts e) (imageFiles_of entries)) \<and>
      console s' = console s0 @ ls \<and>
      (\<forall>f \<in> set (imageFiles_of entries).
         Thumbnail f \<in> set ls \<or> (\<exists>m. FailedThumbnail f m \<in> set ls)) \<and>
      ((\<forall>f \<in> set (imageFiles_of entries). JStr f \<in> set t0) \<longrightarrow>
         optimized s' = optimized s0 \<and>
         files s' TRACKER_FILE = Some (JSON_stringify e (JArr t0)))"
proof -
  let ?fs = "imageFiles_of entries"
  let ?ls = "[Starting (now e)] @ load_lines e s0 @
       [TrackerHas (length t0), Found (length ?fs)] @
       concat (map (lines_of e t0) ?fs) @
       [Complete (length (untracked t0 ?fs)) (length (final_tracker e s0 entries))]"
  have t0: "loaded_tracker e s0 = t0"
    using assms(2) by (rule getOptimizedTracker_loaded)
  have run: "runOptimization e s0 = Inr (run_result e s0 entries)"
    using assms(1) by (rule runOptimization_char)
  have con: "console (run_result e s0 entries) = console s0 @ ?ls"
    by (simp add: run_result_console t0)
  have lines: "\<forall>f \<in> set ?fs. Thumbnail f \<in> set ?ls \<or> (\<exists>m. FailedThumbnail f m \<in> set ?ls)"
  proof
    fix f
    assume f: "f \<in> set ?fs"
    from thumbnail_line_in_lines_of [of f e t0]
    have "Thumbnail f \<in> set (concat (map (lines_of e t0) ?fs)) \<or>
        (\<exists>m. FailedThumbnail f m \<in> set (concat (map (lines_of e t0) ?fs)))"
      using f by auto
    then show "Thumbnail f \<in> set ?ls \<or> (\<exists>m. FailedThumbnail f m \<in> set ?ls)"
      by auto
  qed
  have tracked: "(\<forall>f \<in> set ?fs. JStr f \<in> set t0) \<longrightarrow>
      optimized (run_result e s0 entries) = optimized s0 \<and>
      files (run_result e s0 entries) TRACKER_FILE = Some (JSON_stringify e (JArr t0))"
    by (simp add: run_result_optimized run_result_tracker_file final_tracker_def
        newly_optimized_def untracked_all_tracked t0)
  show ?thesis
    using run run_result_thumbnails [of e s0 entries] con lines tracked by blast
qed

lemma good_no_fatal_fault: "no_fatal_fault good_env good_entries"
  by (simp add: no_fatal_fault_def good_env_def demo_env_def good_entries_def)

lemma good_imageFiles: "imageFiles_of good_entries = [''a.jpg'', ''b.PNG'']"
  by (simp add: imageFiles_of_def is_image_file_def good_entries_def startsWith_def
      endsWith_def path_extname_def path_basename_def toLowerCase_def lower_char_def
      TRACKER_FILE_def IMG_DIR_def path_join_def)

lemma good_settled_load:
  "getOptimizedTracker good_env settled_state =
     Inr ([JStr ''old.jpg'', JStr ''a.jpg'', JStr ''b.PNG''], settled_state)"
  by (simp add: getOptimizedTracker_def getOptimizedTracker_try_def readFile_def good_env_def
      demo_env_def settled_state_def fresh_state_def demo_parse_def new_Set_def Set_add_def
      Set_has_def)

text \<open>
  On a directory whose two images are both tracked.
\<close>

theorem thumbnails_regenerated_every_run_witness:
  "no_fatal_fault good_env good_entries \<and>
   getOptimizedTracker good_env settled_state =
     Inr ([JStr ''old.jpg'', JStr ''a.jpg'', JStr ''b.PNG''], settled_state) \<and>
   (\<exists>s'. runOptimization good_env settled_state = Inr s' \<and>
      thumbnails s' =
        thumbnails settled_state @
        map (thumbnail_write good_env)
          (filter (thumbnail_converts good_env) (imageFiles_of good_entries)) \<and>
      optimized s' = optimized settled_state \<and>
      files s' TRACKER_FILE =
        Some (JSON_stringify good_env (JArr [JStr ''old.jpg'', JStr ''a.jpg'', JStr ''b.PNG''])))"
proof -
  from thumbnails_regenerated_every_run [OF good_no_fatal_fault good_settled_load]
  obtain s' where s': "runOptimization good_env settled_state = Inr s'"
    "thumbnails s' =
        thumbnails settled_state @
        map (thumbnail_write good_env)
          (filter (thumbnail_converts good_env) (imageFiles_of good_entries))"
    "(\<forall>f \<in> set (imageFiles_of good_entries).
        JStr f \<in> set [JStr ''old.jpg'', JStr ''a.jpg'', JStr ''b.PNG'']) \<longrightarrow>
      optimized s' = optimized settled_state \<and>
      files s' TRACKER_FILE =
        Some (JSON_stringify good_env (JArr [JStr ''old.jpg'', JStr ''a.jpg'', JStr ''b.PNG'']))"
    by blast
  have "\<forall>f \<in> set (imageFiles_of good_entries).
      JStr f \<in> set [JStr ''old.jpg'', JStr ''a.jpg'', JStr ''b.PNG'']"
    by (simp add: good_imageFiles)
  with s' good_no_fatal_fault good_settled_load show ?thesis
    by blast
qed

lemma path_join_inj: "path_join d x = path_join d y \<longleftrightarrow> x = y"
  by (simp add: path_join_def)

lemma distinct_optimized_paths:
  "distinct (map path_parse_name fs) \<Longrightarrow> distinct (map optimized_path fs)"
  by (auto simp: distinct_map inj_on_def optimized_path_def path_join_inj)

lemma distinct_thumbnail_paths:
  "distinct (map path_parse_name fs) \<Longrightarrow> distinct (map thumbnail_path fs)"
  by (auto simp: distinct_map inj_on_def thumbnail_path_def path_join_inj)

lemma card_paths:
  assumes "map fst ws = ps" and "distinct ps"
  shows "card (fst ` set ws) = length ps"
proof -
  have "fst ` set ws = set ps"
    using assms(1) by (simp add: set_map [symmetric] del: set_map)
  then show ?thesis
    using assms(2) by (simp add: distinct_card)
qed

section \<open>A fresh run\<close>

lemma collide_no_fatal_fault: "no_fatal_fault collide_env collide_entries"
  by (simp add: no_fatal_fault_def collide_env_def demo_env_def collide_entries_def)

lemma collide_imageFiles: "imageFiles_of collide_entries = [''a.jpg'', ''a.png'']"
  by (simp add: imageFiles_of_def is_image_file_def collide_entries_def startsWith_def
      endsWith_def path_extname_def path_basename_def toLowerCase_def lower_char_def
      TRACKER_FILE_def IMG_DIR_def path_join_def)

lemma collide_fresh_load: "getOptimizedTracker collide_env fresh_state = Inr ([], fresh_state)"
  by (simp add: getOptimizedTracker_def getOptimizedTracker_try_def readFile_def collide_env_def
      demo_env_def fresh_state_def ENOENT_def)

lemma collide_converts:
  "converts collide_env ''a.jpg''" "converts collide_env ''a.png''"
  "thumbnail_converts collide_env ''a.jpg''" "thumbnail_converts collide_env ''a.png''"
  by (simp_all add: converts_def optimize_outcome_def thumbnail_converts_def
      thumbnail_outcome_def collide_env_def demo_env_def IMG_DIR_def path_join_def endsWith_def)

lemma collide_paths:
  "optimized_path ''a.jpg'' = ''img/products/optimized/a.webp''"
  "optimized_path ''a.png'' = ''img/products/optimized/a.webp''"
  "thumbnail_path ''a.jpg'' = ''img/products/thumbnail/a.webp''"
  "thumbnail_path ''a.png'' = ''img/products/thumbnail/a.webp''"
  by (simp_all add: optimized_path_def thumbnail_path_def OPTIMIZED_IMG_DIR_def
      THUMBNAIL_DIR_def IMG_DIR_def path_join_def endsWith_def path_parse_name_def
      path_extname_def path_basename_def)

text \<open>
  Claim C1 says that a fresh run over N image files that all convert produces N
  optimized files and N thumbnail files. Outputs are named by the base name of the
  source, so \<^verbatim>\<open>a.jpg\<close> and \<^verbatim>\<open>a.png\<close> are written to the same two paths: two image
  files, both converted, one optimized file and one thumbnail file.
\<close>

theorem fresh_run_outputs_counterexample:
  "no_fatal_fault collide_env collide_entries \<and>
   getOptimizedTracker collide_env fresh_state = Inr ([], fresh_state) \<and>
   optimized fresh_state = [] \<and> thumbnails fresh_state = [] \<and>
   imageFiles_of collide_entries = [''a.jpg'', ''a.png''] \<and>
   converts collide_env ''a.jpg'' \<and> thumbnail_converts collide_env ''a.jpg'' \<and>
   converts collide_env ''a.png'' \<and> thumbnail_converts collide_env ''a.png'' \<and>
   fst ` set (optimized (projr (runOptimization collide_env fresh_state))) =
     {''img/products/optimized/a.webp''} \<and>
   fst ` set (thumbnails (projr (runOptimization collide_env fresh_state))) =
     {''img/products/thumbnail/a.webp''} \<and>
   card (fst ` set (optimized (projr (runOptimization collide_env fresh_state)))) = 1 \<and>
   card (fst ` set (thumbnails (projr (runOptimization collide_env fresh_state)))) = 1"
proof -
  have t0: "loaded_tracker collide_env fresh_state = []"
    using collide_fresh_load by (rule getOptimizedTracker_loaded)
  have run: "runOptimization collide_env fresh_state =
      Inr (run_result collide_env fresh_state collide_entries)"
    using collide_no_fatal_fault by (rule runOptimization_char)
  have e: "optimized fresh_state = []" "thumbnails fresh_state = []"
    by (simp_all add: fresh_state_def)
  have o: "fst ` set (optimized (run_result collide_env fresh_state collide_entries)) =
      {''img/products/optimized/a.webp''}"
    by (simp add: run_result_optimized t0 newly_optimized_def untracked_Nil_tracker
        collide_imageFiles collide_converts optimized_write_def collide_paths e)
  have t: "fst ` set (thumbnails (run_result collide_env fresh_state collide_entries)) =
      {''img/products/thumbnail/a.webp''}"
    by (simp add: run_result_thumbnails collide_imageFiles collide_converts
        thumbnail_write_def collide_paths e)
  show ?thesis
    using collide_no_fatal_fault collide_fresh_load e collide_imageFiles collide_converts
    by (simp add: run o t)
qed

text \<open>
  Claim C1, amended. A run that meets no fatal fault, loads an empty set and finds N
  image files that all convert, writes one optimized output and one thumbnail per
  image file, to the paths made of the base names; these are N different optimized
  files and N different thumbnail files when the base names are pairwise different;
  and the array written to the tracker file holds exactly the N file names, which are
  pairwise different.
\<close>

theorem fresh_run_outputs:
  assumes "no_fatal_fault e entries"
    and "getOptimizedTracker e s0 = Inr ([], s1)"
    and "\<forall>f \<in> set (imageFiles_of entries). converts e f \<and> thumbnail_converts e f"
  shows "\<exists>s' ws ts.
      runOptimization e s0 = Inr s' \<and>
      optimized s' = optimized s0 @ ws \<and>
      thumbnails s' = thumbnails s0 @ ts \<and>
      map fst ws = map optimized_path (imageFiles_of entries) \<and>
      map fst ts = map thumbnail_path (imageFiles_of entries) \<and>
      (distinct (map path_parse_name (imageFiles_of entries)) \<longrightarrow>
         card (fst ` set ws) = length (imageFiles_of entries) \<and>
         card (fst ` set ts) = length (imageFiles_of entries)) \<and>
      files s' TRACKER_FILE =
        Some (JSON_stringify e (JArr (map JStr (imageFiles_of entries)))) \<and>
      distinct (imageFiles_of entries)"
proof -
  let ?fs = "imageFiles_of entries"
  let ?ws = "map (optimized_write e) ?fs"
  let ?ts = "map (thumbnail_write e) ?fs"
  have t0: "loaded_tracker e s0 = []"
    using assms(2) by (rule getOptimizedTracker_loaded)
  have run: "runOptimization e s0 = Inr (run_result e s0 entries)"
    using assms(1) by (rule runOptimization_char)
  have all: "filter (converts e) ?fs = ?fs" "filter (thumbnail_converts e) ?fs = ?fs"
    using assms(3) by (simp_all add: filter_id_conv)
  have new: "newly_optimized e [] ?fs = ?fs"
    by (simp add: newly_optimized_def untracked_Nil_tracker all)
  have o: "optimized (run_result e s0 entries) = optimized s0 @ ?ws"
    by (simp add: run_result_optimized t0 new)
  have t: "thumbnails (run_result e s0 entries) = thumbnails s0 @ ?ts"
    by (simp add: run_result_thumbnails all)
  have po: "map fst ?ws = map optimized_path ?fs"
    by (simp add: optimized_write_def comp_def)
  have pt: "map fst ?ts = map thumbnail_path ?fs"
    by (simp add: thumbnail_write_def comp_def)
  have c: "distinct (map path_parse_name ?fs) \<longrightarrow>
      card (fst ` set ?ws) = length ?fs \<and> card (fst ` set ?ts) = length ?fs"
    using card_paths [OF po] card_paths [OF pt] distinct_optimized_paths [of ?fs]
      distinct_thumbnail_paths [of ?fs]
    by simp
  have f: "files (run_result e s0 entries) TRACKER_FILE =
      Some (JSON_stringify e (JArr (map JStr ?fs)))"
    by (simp add: run_result_tracker_file final_tracker_def t0 new)
  have d: "distinct ?fs"
    using assms(1) by (simp add: no_fatal_fault_def distinct_imageFiles)
  show ?thesis
    using run o t po pt c f d by blast
qed

lemma good_fresh_load: "getOptimizedTracker good_env fresh_state = Inr ([], fresh_state)"
  by (simp add: getOptimizedTracker_def getOptimizedTracker_try_def readFile_def good_env_def
      demo_env_def fresh_state_def ENOENT_def)

lemma good_converts:
  "converts good_env ''a.jpg''" "converts good_env ''b.PNG''"
  "thumbnail_converts good_env ''a.jpg''" "thumbnail_converts good_env ''b.PNG''"
  by (simp_all add: converts_def optimize_outcome_def thumbnail_converts_def
      thumbnail_outcome_def good_env_def demo_env_def IMG_DIR_def path_join_def endsWith_def)

lemma good_base_names: "path_parse_name ''a.jpg'' = ''a''" "path_parse_name ''b.PNG'' = ''b''"
  by (simp_all add: path_parse_name_def path_extname_def path_basename_def)

text \<open>
  On a directory with two images of different base names.
\<close>

theorem fresh_run_outputs_witness:
  "no_fatal_fault good_env good_entries \<and>
   getOptimizedTracker good_env fresh_state = Inr ([], fresh_state) \<and>
   imageFiles_of good_entries = [''a.jpg'', ''b.PNG''] \<and>
   converts good_env ''a.jpg'' \<and> thumbnail_converts good_env ''a.jpg'' \<and>
   converts good_env ''b.PNG'' \<and> thumbnail_converts good_env ''b.PNG'' \<and>
   distinct (map path_parse_name (imageFiles_of good_entries)) \<and>
   (\<exists>s' ws ts.
      runOptimization good_env fresh_state = Inr s' \<and>
      optimized s' = optimized fresh_state @ ws \<and>
      thumbnails s' = thumbnails fresh_state @ ts \<and>
      map fst ws = map optimized_path (imageFiles_of good_entries) \<and>
      map fst ts = map thumbnail_path (imageFiles_of good_entries) \<and>
      card (fst ` set ws) = length (imageFiles_of good_entries) \<and>
      card (fst ` set ts) = length (imageFiles_of good_entries) \<and>
      files s' TRACKER_FILE =
        Some (JSON_stringify good_env (JArr (map JStr (imageFiles_of good_entries)))))"
proof -
  have all: "\<forall>f \<in> set (imageFiles_of good_entries).
      converts good_env f \<and> thumbnail_converts good_env f"
    by (simp add: good_imageFiles good_converts)
  have d: "distinct (map path_parse_name (imageFiles_of good_entries))"
    by (simp add: good_imageFiles good_base_names)
  from fresh_run_outputs [OF good_no_fatal_fault good_fresh_load all] d
  have "\<exists>s' ws ts.
      runOptimization good_env fresh_state = Inr s' \<and>
      optimized s' = optimized fresh_state @ ws \<and>
      thumbnails s' = thumbnails fresh_state @ ts \<and>
      map fst ws = map optimized_path (imageFiles_of good_entries) \<and>
      map fst ts = map thumbnail_path (imageFiles_of good_entries) \<and>
      card (fst ` set ws) = length (imageFiles_of good_entries) \<and>
      card (fst ` set ts) = length (imageFiles_of good_entries) \<and>
      files s' TRACKER_FILE =
        Some (JSON_stringify good_env (JArr (map JStr (imageFiles_of good_entries))))"
    by blast
  with good_no_fatal_fault good_fresh_load good_imageFiles good_converts d show ?thesis
    by blast
qed

section \<open>The idempotent skip\<close>

lemma same_value_zero_sym: "same_value_zero a b = same_value_zero b a"
  by (cases a; cases b) auto

lemma same_value_zero_JStr: "same_value_zero x (JStr f) \<longleftrightarrow> x = JStr f"
  by (cases x) auto

lemma svz_distinct_append:
  "svz_distinct (xs @ ys) \<longleftrightarrow>
     svz_distinct xs \<and> svz_distinct ys \<and> (\<forall>x \<in> set xs. \<forall>y \<in> set ys. \<not> same_value_zero x y)"
  by (induction xs) (auto simp: list_ex_iff)

lemma svz_distinct_Set_add: "svz_distinct acc \<Longrightarrow> svz_distinct (Set_add acc x)"
  by (simp add: Set_add_def Set_has_def svz_distinct_append list_ex_iff)

lemma svz_distinct_foldl: "svz_distinct acc \<Longrightarrow> svz_distinct (foldl Set_add acc xs)"
  by (induction xs arbitrary: acc) (simp_all add: svz_distinct_Set_add)

lemma foldl_Set_add_id: "svz_distinct (acc @ xs) \<Longrightarrow> foldl Set_add acc xs = acc @ xs"
proof (induction xs arbitrary: acc)
  case Nil
  show ?case by simp
next
  case (Cons x xs)
  from Cons.prems have "\<not> Set_has acc x"
    by (simp add: svz_distinct_append Set_has_def list_ex_iff)
  then have "Set_add acc x = acc @ [x]"
    by (simp add: Set_add_def)
  moreover from Cons.prems have "svz_distinct ((acc @ [x]) @ xs)"
    by simp
  ultimately show ?case
    using Cons.IH [of "acc @ [x]"] by simp
qed

lemma svz_distinct_loaded: "svz_distinct (loaded_tracker e s)"
  by (auto simp: loaded_tracker_def getOptimizedTracker_try_def new_Set_def svz_distinct_foldl
      split: sum.splits json.splits)

lemma svz_distinct_map_JStr: "distinct fs \<Longrightarrow> svz_distinct (map JStr fs)"
  by (induction fs) (auto simp: list_ex_iff)

lemma svz_distinct_final:
  assumes "distinct (map name entries)"
  shows "svz_distinct (final_tracker e s0 entries)"
proof -
  have "distinct (newly_optimized e (loaded_tracker e s0) (imageFiles_of entries))"
    using distinct_imageFiles [OF assms] by (simp add: newly_optimized_def untracked_def)
  then show ?thesis
    by (auto simp: final_tracker_def svz_distinct_append svz_distinct_loaded
        svz_distinct_map_JStr same_value_zero_JStr newly_optimized_def untracked_def
        Set_has_JStr)
qed

lemma rerun_loaded:
  assumes "no_fatal_fault e entries"
    and "read_fault e TRACKER_FILE = None"
    and "JSON_parse e (JSON_stringify e (JArr (final_tracker e s0 entries))) =
      Inr (JArr (final_tracker e s0 entries))"
  shows "loaded_tracker e (run_result e s0 entries) = final_tracker e s0 entries"
proof -
  have "svz_distinct ([] @ final_tracker e s0 entries)"
    using assms(1) by (simp add: no_fatal_fault_def svz_distinct_final)
  then have "foldl Set_add [] (final_tracker e s0 entries) = final_tracker e s0 entries"
    by (simp only: foldl_Set_add_id append_Nil)
  then show ?thesis
    using assms(2,3)
    by (simp add: loaded_tracker_def getOptimizedTracker_try_def readFile_def
        run_result_tracker_file new_Set_def)
qed

lemma newly_optimized_final:
  "newly_optimized e (final_tracker e s0 entries) (imageFiles_of entries) = []"
  by (auto simp: newly_optimized_def untracked_def filter_empty_conv final_tracker_mem
      Set_has_JStr)

text \<open>
  Claim C4. \<^verbatim>\<open>optimizeImage\<close> does nothing, for every input path, file name, set and
  state, when the file name is already in the set or when its extension in lower case
  is \<^verbatim>\<open>.webp\<close>: it returns the set and the state it was given. A second run in the
  same environment, started in the state the first run left, where the tracker file
  can be read and \<^verbatim>\<open>JSON.parse\<close> gives back the array that the first run wrote,
  ends and writes no optimized output: the images that were optimized are tracked, and
  the images that failed fail again.
\<close>

theorem optimize_skips_what_is_done:
  "(Set_has t (JStr f) \<or> toLowerCase (path_extname f) = ''.webp'' \<longrightarrow>
      optimizeImage e p f (t, s) = Inr (t, s)) \<and>
   (no_fatal_fault e entries \<and> runOptimization e s0 = Inr s1 \<and>
    read_fault e TRACKER_FILE = None \<and>
    JSON_parse e (JSON_stringify e (JArr (final_tracker e s0 entries))) =
      Inr (JArr (final_tracker e s0 entries)) \<longrightarrow>
    (\<exists>s2. runOptimization e s1 = Inr s2 \<and> optimized s2 = optimized s1))"
proof (intro conjI impI)
  assume "Set_has t (JStr f) \<or> toLowerCase (path_extname f) = ''.webp''"
  then show "optimizeImage e p f (t, s) = Inr (t, s)"
    by (auto simp: optimizeImage_def)
next
  assume a: "no_fatal_fault e entries \<and> runOptimization e s0 = Inr s1 \<and>
    read_fault e TRACKER_FILE = None \<and>
    JSON_parse e (JSON_stringify e (JArr (final_tracker e s0 entries))) =
      Inr (JArr (final_tracker e s0 entries))"
  then have s1: "s1 = run_result e s0 entries"
    using runOptimization_char [of e entries s0] by auto
  have "loaded_tracker e s1 = final_tracker e s0 entries"
    unfolding s1 using a by (intro rerun_loaded) simp_all
  then have "optimized (run_result e s1 entries) = optimized s1"
    by (simp add: run_result_optimized newly_optimized_final)
  moreover have "runOptimization e s1 = Inr (run_result e s1 entries)"
    using a by (simp add: runOptimization_char)
  ultimately show "\<exists>s2. runOptimization e s1 = Inr s2 \<and> optimized s2 = optimized s1"
    by blast
qed

lemma demo_tracked_final:
  "final_tracker demo_env tracked_state demo_entries =
     [JStr ''old.jpg'', JStr ''a.jpg'', JStr ''b.PNG'']"
  using getOptimizedTracker_loaded [OF demo_tracked_load]
  by (simp add: final_tracker_def newly_optimized_def untracked_def Set_has_JStr
      demo_imageFiles demo_converts)

lemma demo_round_trip:
  "JSON_parse demo_env (JSON_stringify demo_env
      (JArr (final_tracker demo_env tracked_state demo_entries))) =
     Inr (JArr (final_tracker demo_env tracked_state demo_entries))"
  unfolding demo_tracked_final
  by (simp add: demo_env_def demo_stringify_def demo_parse_def)

lemma demo_tracked_run:
  "runOptimization demo_env tracked_state =
     Inr (run_result demo_env tracked_state demo_entries)"
  using demo_no_fatal_fault by (rule runOptimization_char)

text \<open>
  On the example: a tracked file name, and two runs one after the other.
\<close>

theorem optimize_skips_what_is_done_witness:
  "Set_has [JStr ''a.jpg''] (JStr ''a.jpg'') \<and>
   optimizeImage demo_env (path_join IMG_DIR ''a.jpg'') ''a.jpg'' ([JStr ''a.jpg''], fresh_state) =
     Inr ([JStr ''a.jpg''], fresh_state) \<and>
   no_fatal_fault demo_env demo_entries \<and>
   runOptimization demo_env tracked_state =
     Inr (run_result demo_env tracked_state demo_entries) \<and>
   read_fault demo_env TRACKER_FILE = None \<and>
   JSON_parse demo_env (JSON_stringify demo_env
      (JArr (final_tracker demo_env tracked_state demo_entries))) =
     Inr (JArr (final_tracker demo_env tracked_state demo_entries)) \<and>
   (\<exists>s2. runOptimization demo_env (run_result demo_env tracked_state demo_entries) = Inr s2 \<and>
      optimized s2 = optimized (run_result demo_env tracked_state demo_entries))"
proof -
  note th = optimize_skips_what_is_done
    [of "[JStr ''a.jpg'']" "''a.jpg''" demo_env "path_join IMG_DIR ''a.jpg''" fresh_state
      demo_entries tracked_state "run_result demo_env tracked_state demo_entries"]
  have h: "Set_has [JStr ''a.jpg''] (JStr ''a.jpg'')"
    by (simp add: Set_has_def)
  have r: "read_fault demo_env TRACKER_FILE = None"
    by (simp add: demo_env_def)
  from th h have 1: "optimizeImage demo_env (path_join IMG_DIR ''a.jpg'') ''a.jpg''
      ([JStr ''a.jpg''], fresh_state) = Inr ([JStr ''a.jpg''], fresh_state)"
    by blast
  from th demo_no_fatal_fault demo_tracked_run r demo_round_trip
  have 2: "\<exists>s2. runOptimization demo_env (run_result demo_env tracked_state demo_entries) = Inr s2 \<and>
      optimized s2 = optimized (run_result demo_env tracked_state demo_entries)"
    by blast
  from h 1 demo_no_fatal_fault demo_tracked_run r demo_round_trip 2 show ?thesis
    by blast
qed

section \<open>The image files of the directory\<close>

lemma endsWith_append: "endsWith n suf \<Longrightarrow> \<exists>pre. n = pre @ suf"
  by (metis endsWith_def append_take_drop_id)

lemma tracker_basename: "path_basename TRACKER_FILE = ''optimized_images.json''"
  by (simp add: TRACKER_FILE_def IMG_DIR_def path_join_def endsWith_def path_basename_def)

lemma extname_of_tracker_suffix:
  assumes "endsWith n ''optimized_images.json''"
  shows "path_extname n = ''.json''"
proof -
  from assms obtain pre where n: "n = pre @ ''optimized_images.json''"
    using endsWith_append by blast
  define q where "q = rev (takeWhile (\<lambda>c. c \<noteq> CHR ''/'') (rev pre))"
  have b: "path_basename n = q @ ''optimized_images.json''"
    by (simp add: n q_def path_basename_def)
  show ?thesis
    by (simp add: path_extname_def b)
qed

lemma not_image_file_tracker_suffix:
  assumes "endsWith n ''optimized_images.json''"
  shows "toLowerCase (drop 1 (path_extname n)) \<notin> set [''jpg'', ''jpeg'', ''png'', ''gif'']"
  by (simp add: extname_of_tracker_suffix [OF assms] toLowerCase_def lower_char_def)

lemma endsWith_self: "endsWith n n"
  by (simp add: endsWith_def)

lemma is_image_file_iff_candidate: "is_image_file d \<longleftrightarrow> is_candidate d"
  using not_image_file_tracker_suffix [of "name d"] endsWith_self [of "name d"]
  by (auto simp: is_image_file_def is_candidate_def tracker_basename)

lemma imageFiles_of_candidates: "imageFiles_of entries = map name (filter is_candidate entries)"
proof -
  have "is_image_file = is_candidate"
    by (rule ext) (rule is_image_file_iff_candidate)
  then show ?thesis
    by (simp add: imageFiles_of_def)
qed

lemma lines_of_thumbnail_iff:
  "(Thumbnail f \<in> set (lines_of e t g) \<or> (\<exists>m. FailedThumbnail f m \<in> set (lines_of e t g))) \<longleftrightarrow>
     g = f"
  by (cases "thumbnail_outcome e g"; cases "optimize_outcome e g") (auto simp: lines_of_def)

lemma lines_of_optimize_iff:
  "(Optimized f \<in> set (lines_of e t g) \<or> (\<exists>m. FailedToOptimize f m \<in> set (lines_of e t g))) \<longleftrightarrow>
     g = f \<and> JStr f \<notin> set t"
  by (cases "thumbnail_outcome e g"; cases "optimize_outcome e g")
    (auto simp: lines_of_def Set_has_JStr)

lemma load_lines_no_file_line:
  "Thumbnail f \<notin> set (load_lines e s)" "FailedThumbnail f m \<notin> set (load_lines e s)"
  "Optimized f \<notin> set (load_lines e s)" "FailedToOptimize f m \<notin> set (load_lines e s)"
  by (simp_all add: load_lines_def split: sum.splits)

lemma run_lines_thumbnail_iff:
  "(Thumbnail f \<in> set (drop (length (console s0)) (console (run_result e s0 entries))) \<or>
    (\<exists>m. FailedThumbnail f m \<in> set (drop (length (console s0)) (console (run_result e s0 entries))))) \<longleftrightarrow>
     f \<in> set (imageFiles_of entries)"
proof -
  have "(Thumbnail f \<in> set (concat (map (lines_of e t) fs)) \<or>
      (\<exists>m. FailedThumbnail f m \<in> set (concat (map (lines_of e t) fs)))) \<longleftrightarrow> f \<in> set fs" for t fs
  proof -
    have "(Thumbnail f \<in> set (concat (map (lines_of e t) fs)) \<or>
        (\<exists>m. FailedThumbnail f m \<in> set (concat (map (lines_of e t) fs)))) \<longleftrightarrow>
        (\<exists>g \<in> set fs. Thumbnail f \<in> set (lines_of e t g) \<or>
           (\<exists>m. FailedThumbnail f m \<in> set (lines_of e t g)))"
      by (simp only: set_concat set_map) blast
    then show ?thesis
      by (simp only: lines_of_thumbnail_iff) simp
  qed
  then show ?thesis
    by (simp add: run_result_console load_lines_no_file_line)
qed

lemma run_lines_optimize_iff:
  "(Optimized f \<in> set (drop (length (console s0)) (console (run_result e s0 entries))) \<or>
    (\<exists>m. FailedToOptimize f m \<in> set (drop (length (console s0)) (console (run_result e s0 entries))))) \<longleftrightarrow>
     f \<in> set (imageFiles_of entries) \<and> JStr f \<notin> set (loaded_tracker e s0)"
proof -
  have "(Optimized f \<in> set (concat (map (lines_of e t) fs)) \<or>
      (\<exists>m. FailedToOptimize f m \<in> set (concat (map (lines_of e t) fs)))) \<longleftrightarrow>
      f \<in> set fs \<and> JStr f \<notin> set t" for t fs
  proof -
    have "(Optimized f \<in> set (concat (map (lines_of e t) fs)) \<or>
        (\<exists>m. FailedToOptimize f m \<in> set (concat (map (lines_of e t) fs)))) \<longleftrightarrow>
        (\<exists>g \<in> set fs. Optimized f \<in> set (lines_of e t g) \<or>
           (\<exists>m. FailedToOptimize f m \<in> set (lines_of e t g)))"
      by (simp only: set_concat set_map) blast
    then show ?thesis
      by (simp only: lines_of_optimize_iff) auto
  qed
  then show ?thesis
    by (simp add: run_result_console load_lines_no_file_line)
qed


lemma run_result_console_drop:
  "console (run_result e s0 entries) =
     console s0 @ drop (length (console s0)) (console (run_result e s0 entries))"
  by (simp add: run_result_console)

text \<open>
  Claim C6. An entry of the directory passes the filter of the script exactly when it
  is a candidate in the words of the specification: a regular file, whose name does
  not start with a dot and does not end with \<^verbatim>\<open>.webp\<close>, which is not the tracker
  file \<^verbatim>\<open>optimized_images.json\<close>, and whose extension in lower case is one of jpg,
  jpeg, png, gif. The list the loop goes through is the list of the names of the
  candidates among the entries, in the order of the listing, so every candidate of the
  listing is in it. An entry whose name ends with \<^verbatim>\<open>.webp\<close>, or whose extension in
  lower case is \<^verbatim>\<open>.webp\<close>, is no candidate and its name is not in the list. A run
  that meets no fatal fault prints a thumbnail line or a thumbnail failure for exactly
  the names of the candidates, prints an optimization line or an optimization failure
  for exactly the names of the candidates that were not in the set loaded, and writes
  the optimized outputs and the thumbnails of exactly the candidates that are
  untracked and convert, or whose thumbnail pipeline succeeds.
\<close>

theorem image_file_iff:
  "(is_image_file d \<longleftrightarrow> is_candidate d) \<and>
   path_basename TRACKER_FILE = ''optimized_images.json'' \<and>
   imageFiles_of entries = map name (filter is_candidate entries) \<and>
   (d \<in> set entries \<and> is_candidate d \<longrightarrow> name d \<in> set (imageFiles_of entries)) \<and>
   (endsWith (name d) ''.webp'' \<or> toLowerCase (path_extname (name d)) = ''.webp'' \<longrightarrow>
      \<not> is_candidate d \<and> name d \<notin> set (imageFiles_of entries)) \<and>
   (no_fatal_fault e entries \<and> getOptimizedTracker e s0 = Inr (t0, s1) \<longrightarrow>
      (\<exists>s' ls.
         runOptimization e s0 = Inr s' \<and>
         console s' = console s0 @ ls \<and>
         (\<forall>f. (Thumbnail f \<in> set ls \<or> (\<exists>m. FailedThumbnail f m \<in> set ls)) \<longleftrightarrow>
              f \<in> name ` {c \<in> set entries. is_candidate c}) \<and>
         (\<forall>f. (Optimized f \<in> set ls \<or> (\<exists>m. FailedToOptimize f m \<in> set ls)) \<longleftrightarrow>
              f \<in> name ` {c \<in> set entries. is_candidate c} \<and> JStr f \<notin> set t0) \<and>
         optimized s' =
           optimized s0 @
           map (optimized_write e)
             (filter (\<lambda>f. JStr f \<notin> set t0 \<and> converts e f)
               (map name (filter is_candidate entries))) \<and>
         thumbnails s' =
           thumbnails s0 @
           map (thumbnail_write e)
             (filter (thumbnail_converts e) (map name (filter is_candidate entries)))))"
proof (intro conjI impI)
  show "is_image_file d \<longleftrightarrow> is_candidate d"
    by (rule is_image_file_iff_candidate)
next
  show "path_basename TRACKER_FILE = ''optimized_images.json''"
    by (rule tracker_basename)
next
  show "imageFiles_of entries = map name (filter is_candidate entries)"
    by (rule imageFiles_of_candidates)
next
  assume "d \<in> set entries \<and> is_candidate d"
  then show "name d \<in> set (imageFiles_of entries)"
    by (auto simp: imageFiles_of_candidates)
next
  assume w: "endsWith (name d) ''.webp'' \<or> toLowerCase (path_extname (name d)) = ''.webp''"
  have *: "\<not> is_image_file d'" if "name d' = name d" for d'
    using w that is_image_file_not_webp [of d'] by (auto simp: is_image_file_def)
  from * show "\<not> is_candidate d"
    by (simp add: is_image_file_iff_candidate)
  from * show "name d \<notin> set (imageFiles_of entries)"
    by (auto simp: imageFiles_of_def)
next
  assume a: "no_fatal_fault e entries \<and> getOptimizedTracker e s0 = Inr (t0, s1)"
  let ?ls = "drop (length (console s0)) (console (run_result e s0 entries))"
  have t0: "loaded_tracker e s0 = t0"
    using a by (simp add: getOptimizedTracker_loaded)
  have names: "set (imageFiles_of entries) = name ` {c \<in> set entries. is_candidate c}"
    by (auto simp: imageFiles_of_candidates)
  have run: "runOptimization e s0 = Inr (run_result e s0 entries)"
    using a by (simp add: runOptimization_char)
  have con: "console (run_result e s0 entries) = console s0 @ ?ls"
    by (rule run_result_console_drop)
  have th: "\<forall>f. (Thumbnail f \<in> set ?ls \<or> (\<exists>m. FailedThumbnail f m \<in> set ?ls)) \<longleftrightarrow>
      f \<in> name ` {c \<in> set entries. is_candidate c}"
    by (simp only: run_lines_thumbnail_iff names) simp
  have op: "\<forall>f. (Optimized f \<in> set ?ls \<or> (\<exists>m. FailedToOptimize f m \<in> set ?ls)) \<longleftrightarrow>
      f \<in> name ` {c \<in> set entries. is_candidate c} \<and> JStr f \<notin> set t0"
    by (simp only: run_lines_optimize_iff names t0) simp
  have o: "optimized (run_result e s0 entries) =
      optimized s0 @
      map (optimized_write e)
        (filter (\<lambda>f. JStr f \<notin> set t0 \<and> converts e f) (map name (filter is_candidate entries)))"
    by (simp add: run_result_optimized t0 newly_optimized_def untracked_def Set_has_JStr
        imageFiles_of_candidates conj_commute)
  have t: "thumbnails (run_result e s0 entries) =
      thumbnails s0 @
      map (thumbnail_write e)
        (filter (thumbnail_converts e) (map name (filter is_candidate entries)))"
    by (simp add: run_result_thumbnails imageFiles_of_candidates)
  show "\<exists>s' ls.
         runOptimization e s0 = Inr s' \<and>
         console s' = console s0 @ ls \<and>
         (\<forall>f. (Thumbnail f \<in> set ls \<or> (\<exists>m. FailedThumbnail f m \<in> set ls)) \<longleftrightarrow>
              f \<in> name ` {c \<in> set entries. is_candidate c}) \<and>
         (\<forall>f. (Optimized f \<in> set ls \<or> (\<exists>m. FailedToOptimize f m \<in> set ls)) \<longleftrightarrow>
              f \<in> name ` {c \<in> set entries. is_candidate c} \<and> JStr f \<notin> set t0) \<and>
         optimized s' =
           optimized s0 @
           map (optimized_write e)
             (filter (\<lambda>f. JStr f \<notin> set t0 \<and> converts e f)
               (map name (filter is_candidate entries))) \<and>
         thumbnails s' =
           thumbnails s0 @
           map (thumbnail_write e)
             (filter (thumbnail_converts e) (map name (filter is_candidate entries)))"
    using run con th op o t
    by (intro exI [of _ "run_result e s0 entries"] exI [of _ ?ls] conjI)
qed


lemma demo_png_entry:
  "\<lparr>name = ''b.PNG'', isFile = True\<rparr> \<in> set demo_entries"
  "is_candidate \<lparr>name = ''b.PNG'', isFile = True\<rparr>"
  by (simp_all add: demo_entries_def is_candidate_def startsWith_def endsWith_def
      path_extname_def path_basename_def toLowerCase_def lower_char_def)

lemma demo_webp_entry: "endsWith ''c.webp'' ''.webp''"
  by (simp add: endsWith_def)

text \<open>
  On the example: \<^verbatim>\<open>b.PNG\<close> is a candidate, it is in the list, and the run prints
  its optimization and its thumbnail; \<^verbatim>\<open>c.webp\<close> is no candidate, it is not in the
  list, and the run prints no line about it.
\<close>

theorem image_file_iff_witness:
  "\<lparr>name = ''b.PNG'', isFile = True\<rparr> \<in> set demo_entries \<and>
   is_candidate \<lparr>name = ''b.PNG'', isFile = True\<rparr> \<and>
   ''b.PNG'' \<in> set (imageFiles_of demo_entries) \<and>
   endsWith ''c.webp'' ''.webp'' \<and>
   \<not> is_candidate \<lparr>name = ''c.webp'', isFile = True\<rparr> \<and>
   ''c.webp'' \<notin> set (imageFiles_of demo_entries) \<and>
   no_fatal_fault demo_env demo_entries \<and>
   getOptimizedTracker demo_env fresh_state = Inr ([], fresh_state) \<and>
   (\<exists>s' ls.
      runOptimization demo_env fresh_state = Inr s' \<and>
      console s' = console fresh_state @ ls \<and>
      (Thumbnail ''b.PNG'' \<in> set ls \<or> (\<exists>m. FailedThumbnail ''b.PNG'' m \<in> set ls)) \<and>
      (Optimized ''b.PNG'' \<in> set ls \<or> (\<exists>m. FailedToOptimize ''b.PNG'' m \<in> set ls)) \<and>
      \<not> (Thumbnail ''c.webp'' \<in> set ls \<or> (\<exists>m. FailedThumbnail ''c.webp'' m \<in> set ls)) \<and>
      \<not> (Optimized ''c.webp'' \<in> set ls \<or> (\<exists>m. FailedToOptimize ''c.webp'' m \<in> set ls)))"
proof -
  let ?png = "\<lparr>name = ''b.PNG'', isFile = True\<rparr>"
  let ?webp = "\<lparr>name = ''c.webp'', isFile = True\<rparr>"
  note png = image_file_iff [of ?png demo_entries demo_env fresh_state "[]" fresh_state]
  note webp = image_file_iff [of ?webp demo_entries demo_env fresh_state "[]" fresh_state]
  have w: "endsWith (name ?webp) ''.webp''"
    by (simp add: demo_webp_entry)
  from png demo_png_entry have 1: "name ?png \<in> set (imageFiles_of demo_entries)"
    by blast
  from webp w have 2: "\<not> is_candidate ?webp" and 3: "name ?webp \<notin> set (imageFiles_of demo_entries)"
    by blast+
  from png have "imageFiles_of demo_entries = map name (filter is_candidate demo_entries)"
    by blast
  then have names: "name ` {c \<in> set demo_entries. is_candidate c} = set (imageFiles_of demo_entries)"
    by auto
  from png demo_no_fatal_fault demo_fresh_load obtain s' ls where
    r: "runOptimization demo_env fresh_state = Inr s'" "console s' = console fresh_state @ ls"
    and th: "\<forall>f. (Thumbnail f \<in> set ls \<or> (\<exists>m. FailedThumbnail f m \<in> set ls)) \<longleftrightarrow>
      f \<in> name ` {c \<in> set demo_entries. is_candidate c}"
    and op: "\<forall>f. (Optimized f \<in> set ls \<or> (\<exists>m. FailedToOptimize f m \<in> set ls)) \<longleftrightarrow>
      f \<in> name ` {c \<in> set demo_entries. is_candidate c} \<and> JStr f \<notin> set []"
    by blast
  from th op 1 3 have v:
    "Thumbnail ''b.PNG'' \<in> set ls \<or> (\<exists>m. FailedThumbnail ''b.PNG'' m \<in> set ls)"
    "Optimized ''b.PNG'' \<in> set ls \<or> (\<exists>m. FailedToOptimize ''b.PNG'' m \<in> set ls)"
    "\<not> (Thumbnail ''c.webp'' \<in> set ls \<or> (\<exists>m. FailedThumbnail ''c.webp'' m \<in> set ls))"
    "\<not> (Optimized ''c.webp'' \<in> set ls \<or> (\<exists>m. FailedToOptimize ''c.webp'' m \<in> set ls))"
    unfolding names by simp_all
  from r v have run: "\<exists>s' ls.
      runOptimization demo_env fresh_state = Inr s' \<and>
      console s' = console fresh_state @ ls \<and>
      (Thumbnail ''b.PNG'' \<in> set ls \<or> (\<exists>m. FailedThumbnail ''b.PNG'' m \<in> set ls)) \<and>
      (Optimized ''b.PNG'' \<in> set ls \<or> (\<exists>m. FailedToOptimize ''b.PNG'' m \<in> set ls)) \<and>
      \<not> (Thumbnail ''c.webp'' \<in> set ls \<or> (\<exists>m. FailedThumbnail ''c.webp'' m \<in> set ls)) \<and>
      \<not> (Optimized ''c.webp'' \<in> set ls \<or> (\<exists>m. FailedToOptimize ''c.webp'' m \<in> set ls))"
    by blast
  from demo_png_entry 1 demo_webp_entry 2 3 demo_no_fatal_fault demo_fresh_load run
  show ?thesis
    by simp
qed

section \<open>The font size of the watermark\<close>

lemma round_to_double_props:
  assumes "0 < P"
  defines "e \<equiv> nat (bitlen P) - 53"
  shows "2 ^ e dvd round_to_double P"
    and "2 * \<bar>round_to_double P - P\<bar> \<le> 2 ^ e"
    and "P < 2 ^ (e + 53)"
    and "2 ^ (e + 52) \<le> P \<or> e = 0"
proof -
  define E :: int where "E = 2 ^ e"
  define q where "q = P div E"
  define r where "r = P mod E"
  have E: "0 < E"
    by (simp add: E_def)
  have P: "P = q * E + r" and r: "0 \<le> r" "r < E"
    using E by (simp_all add: q_def r_def)
  have R: "round_to_double P =
      (if 2 * r > E \<or> (2 * r = E \<and> odd q) then (q + 1) * E else q * E)"
    by (simp add: round_to_double_def Let_def e_def E_def q_def r_def)
  show "2 ^ e dvd round_to_double P"
    unfolding R E_def [symmetric] by simp
  show "2 * \<bar>round_to_double P - P\<bar> \<le> 2 ^ e"
    unfolding R E_def [symmetric] using P r by (auto simp: algebra_simps)
  have b: "2 ^ nat (bitlen P - 1) \<le> P" "P < 2 ^ nat (bitlen P)"
    using bitlen_bounds [OF assms(1)] by simp_all
  have "nat (bitlen P) \<le> e + 53"
    by (simp add: e_def)
  then have pw: "(2::int) ^ nat (bitlen P) \<le> 2 ^ (e + 53)"
    by (rule power_increasing) simp
  from b(2) pw show "P < 2 ^ (e + 53)"
    by (rule less_le_trans)
  show "2 ^ (e + 52) \<le> P \<or> e = 0"
  proof (cases "e = 0")
    case True
    then show ?thesis by simp
  next
    case False
    then have "nat (bitlen P - 1) = e + 52"
      by (simp add: e_def nat_diff_distrib)
    with b(1) show ?thesis by (simp only:) simp
  qed
qed

lemma div_eqI:
  fixes a b :: int
  assumes "b * d \<le> a" and "a < (b + 1) * d" and "0 < d"
  shows "a div d = b"
proof -
  have "a = b * d + (a - b * d)"
    by simp
  moreover have "0 \<le> a - b * d" "a - b * d < d"
    using assms by (simp_all add: algebra_simps)
  ultimately show ?thesis
    using assms(3) by (metis div_pos_pos_trivial div_mult_self3 add.right_neutral
        less_irrefl mult.commute)
qed

lemma times_0_03_rounds_exactly:
  assumes "0 < w" and "w < 2 ^ 52"
  shows "Math_round 58 (times_0_03 w) = (3 * w + 50) div 100"
proof -
  define P where "P = w * 8646911284551352"
  define e where "e = nat (bitlen P) - 53"
  define E :: int where "E = 2 ^ e"
  define R where "R = round_to_double P"
  define B where "B = (3 * w + 50) div 100"
  have P0: "0 < P"
    using assms(1) by (simp add: P_def)
  from round_to_double_props [OF P0]
  have dvd: "E dvd R" and err: "2 * \<bar>R - P\<bar> \<le> E" and hi: "P < E * 2 ^ 53"
    and lo: "E * 2 ^ 52 \<le> P \<or> e = 0"
    by (simp_all add: E_def e_def R_def power_add)
  have E0: "0 < E"
    by (simp add: E_def)
  have Ple: "P < 2 ^ 105"
    using assms(2) by (simp add: P_def)
  have e52: "e \<le> 52"
  proof (rule ccontr)
    assume "\<not> e \<le> 52"
    then have "53 \<le> e" by simp
    then have "(2::int) ^ 53 \<le> 2 ^ e"
      by (rule power_increasing) simp
    moreover from \<open>\<not> e \<le> 52\<close> lo have "E * 2 ^ 52 \<le> P"
      by auto
    ultimately show False
      using Ple by (simp add: E_def)
  qed
  then have E52: "E \<le> 2 ^ 52"
    unfolding E_def by (rule power_increasing) simp
  have B: "100 * B \<le> 3 * w + 50" "3 * w + 50 < 100 * B + 100"
    unfolding B_def by (simp_all add: algebra_simps)
  have B0: "0 \<le> B"
    unfolding B_def using assms(1) by (simp add: pos_imp_zdiv_nonneg_iff)
  define L where "L = (2 * B - 1) * 2 ^ 57"
  from err have "2 * R - 2 * P \<le> E"
    by (simp add: abs_if algebra_simps split: if_splits)
  then have err1: "2 * R - 2 * (w * 8646911284551352) \<le> E"
    by (simp only: P_def)
  from err have "2 * P - 2 * R \<le> E"
    by (simp add: abs_if algebra_simps split: if_splits)
  then have err2: "2 * (w * 8646911284551352) - 2 * R \<le> E"
    by (simp only: P_def)
  have hi': "w * 8646911284551352 < E * 9007199254740992"
    using hi by (simp add: P_def)
  have upper: "R < 288230376151711744 * B + 144115188075855872"
    using err1 E52 B(2) B0 by simp
  have "E dvd L"
  proof -
    have "(2::int) ^ e dvd 2 ^ 57"
      using e52 by (intro le_imp_power_dvd) simp
    then show ?thesis
      unfolding L_def E_def by (rule dvd_mult)
  qed
  then have "E dvd L - R"
    using dvd by (rule dvd_diff)
  moreover have "L - R < E"
    using err2 hi' B(1) B0 E0 assms(1) by (simp add: L_def)
  ultimately have lower: "L \<le> R"
    using E0 by (smt (verit) zdvd_imp_le)
  have "(2 * R + 2 ^ 58) div 2 ^ 59 = B"
    using lower upper by (intro div_eqI) (simp_all add: L_def)
  moreover have "times_0_03 w = R"
    using assms(1) by (simp add: times_0_03_def double_mul_def R_def P_def)
  ultimately show ?thesis
    by (simp add: Math_round_def B_def)
qed

lemma round_to_double_unfold:
  "round_to_double P =
     (if 2 * (P mod 2 ^ (nat (bitlen P) - 53)) > 2 ^ (nat (bitlen P) - 53) \<or>
         (2 * (P mod 2 ^ (nat (bitlen P) - 53)) = 2 ^ (nat (bitlen P) - 53) \<and>
          odd (P div 2 ^ (nat (bitlen P) - 53)))
      then (P div 2 ^ (nat (bitlen P) - 53) + 1) * 2 ^ (nat (bitlen P) - 53)
      else P div 2 ^ (nat (bitlen P) - 53) * 2 ^ (nat (bitlen P) - 53))"
  by (simp add: round_to_double_def Let_def)

lemma round_to_double_between:
  fixes E :: int
  assumes "E = 2 ^ (nat (bitlen P) - 53)"
  shows "P div E * E \<le> round_to_double P" and "round_to_double P \<le> (P div E + 1) * E"
proof -
  have "0 < E"
    by (simp add: assms)
  then have "P div E * E \<le> (P div E + 1) * E"
    by (simp add: algebra_simps)
  then show "P div E * E \<le> round_to_double P" and "round_to_double P \<le> (P div E + 1) * E"
    unfolding round_to_double_unfold assms by simp_all
qed

lemma multiple_le_div:
  fixes E :: int
  assumes "0 < E" and "E dvd T" and "T \<le> Q"
  shows "T \<le> Q div E * E"
proof -
  from assms(2) obtain k where T: "T = k * E"
    by (auto simp: dvd_def mult.commute)
  from assms(3) have "T div E \<le> Q div E"
    using assms(1) by (rule zdiv_mono1)
  with assms(1) have "k \<le> Q div E"
    by (simp add: T)
  with assms(1) show ?thesis
    by (simp add: T)
qed

lemma multiple_gt_div:
  fixes E :: int
  assumes "0 < E" and "E dvd T" and "P < T"
  shows "(P div E + 1) * E \<le> T"
proof -
  from assms(2) obtain k where T: "T = k * E"
    by (auto simp: dvd_def mult.commute)
  have "P div E < k"
  proof (rule ccontr)
    assume "\<not> P div E < k"
    then have "k \<le> P div E" by simp
    then have "k * E \<le> P div E * E"
      using assms(1) by simp
    also have "\<dots> \<le> P"
      using div_mult_mod_eq [of P E] pos_mod_sign [OF assms(1), of P] by linarith
    finally show False
      using assms(3) T by simp
  qed
  then have "P div E + 1 \<le> k" by simp
  then show ?thesis
    using assms(1) by (simp add: T)
qed

lemma bitlen_mono: "P \<le> Q \<Longrightarrow> bitlen P \<le> bitlen Q"
  by (simp add: bitlen_def floorlog_mono nat_mono)

lemma round_to_double_nonneg: "0 \<le> P \<Longrightarrow> 0 \<le> round_to_double P"
proof -
  assume "0 \<le> P"
  then have "0 \<le> P div 2 ^ (nat (bitlen P) - 53) * 2 ^ (nat (bitlen P) - 53)"
    by (simp add: pos_imp_zdiv_nonneg_iff)
  also have "\<dots> \<le> round_to_double P"
    by (rule round_to_double_between) simp
  finally show ?thesis .
qed

lemma round_to_double_mono:
  assumes "0 < P" and "P \<le> Q"
  shows "round_to_double P \<le> round_to_double Q"
proof -
  define eP where "eP = nat (bitlen P) - 53"
  define eQ where "eQ = nat (bitlen Q) - 53"
  define EP :: int where "EP = 2 ^ eP"
  define EQ :: int where "EQ = 2 ^ eQ"
  have Q0: "0 < Q"
    using assms by simp
  have EP: "EP = 2 ^ (nat (bitlen P) - 53)" and EQ: "EQ = 2 ^ (nat (bitlen Q) - 53)"
    by (simp_all add: EP_def EQ_def eP_def eQ_def)
  have pos: "0 < EP" "0 < EQ"
    by (simp_all add: EP_def EQ_def)
  have le: "eP \<le> eQ"
    using bitlen_mono [OF assms(2)] by (simp add: eP_def eQ_def nat_mono diff_le_mono)
  show ?thesis
  proof (cases "eP = eQ")
    case True
    then have E: "EQ = EP"
      by (simp add: EP_def EQ_def)
    have q: "P div EP \<le> Q div EP"
      using assms(2) pos(1) by (rule zdiv_mono1)
    show ?thesis
    proof (cases "P div EP = Q div EP")
      case same: True
      have "P mod EP = P - P div EP * EP" "Q mod EP = Q - Q div EP * EP"
        by (simp_all add: minus_div_mult_eq_mod)
      then have "P mod EP \<le> Q mod EP"
        using assms(2) by (simp add: same)
      then show ?thesis
        using pos(1) same
        unfolding round_to_double_unfold [of P] round_to_double_unfold [of Q]
          EP [symmetric] EQ [symmetric] E
        by (auto simp: algebra_simps)
    next
      case False
      with q have "P div EP + 1 \<le> Q div EP"
        by simp
      then have "(P div EP + 1) * EP \<le> Q div EP * EP"
        using pos(1) by simp
      moreover have "round_to_double P \<le> (P div EP + 1) * EP"
        using EP by (rule round_to_double_between)
      moreover have "Q div EP * EP \<le> round_to_double Q"
        using EQ [unfolded E] by (rule round_to_double_between)
      ultimately show ?thesis
        by linarith
    qed
  next
    case False
    with le have lt: "eP + 53 \<le> eQ + 52" and eQ0: "eQ \<noteq> 0"
      by simp_all
    define T :: int where "T = 2 ^ (eQ + 52)"
    have "P < 2 ^ (eP + 53)"
      using round_to_double_props(3) [OF assms(1)] by (simp add: eP_def)
    also have "(2::int) ^ (eP + 53) \<le> T"
      unfolding T_def using lt by (intro power_increasing) simp_all
    finally have PT: "P < T" .
    have TQ: "T \<le> Q"
      using round_to_double_props(4) [OF Q0] eQ0 by (simp add: eQ_def T_def)
    have dP: "EP dvd T"
      unfolding EP_def T_def using lt by (intro le_imp_power_dvd) simp
    have dQ: "EQ dvd T"
      unfolding EQ_def T_def by (intro le_imp_power_dvd) simp
    have "round_to_double P \<le> (P div EP + 1) * EP"
      using EP by (rule round_to_double_between)
    also have "\<dots> \<le> T"
      using pos(1) dP PT by (rule multiple_gt_div)
    also have "T \<le> Q div EQ * EQ"
      using pos(2) dQ TQ by (rule multiple_le_div)
    also have "\<dots> \<le> round_to_double Q"
      using EQ by (rule round_to_double_between)
    finally show ?thesis .
  qed
qed

lemma round_to_double_zero: "round_to_double 0 = 0"
  by (simp add: round_to_double_def)

lemma double_mul_mono:
  assumes "0 < M" and "w \<le> w'"
  shows "double_mul w M \<le> double_mul w' M"
proof -
  consider "w' < 0" | "w < 0" "0 \<le> w'" | "w = 0" | "0 < w"
    by linarith
  then show ?thesis
  proof cases
    case 1
    then have "0 < \<bar>w'\<bar>" "\<bar>w'\<bar> \<le> \<bar>w\<bar>"
      using assms(2) by simp_all
    then have "0 < \<bar>w'\<bar> * M" "\<bar>w'\<bar> * M \<le> \<bar>w\<bar> * M"
      using assms(1) by (simp_all add: mult_right_mono)
    then have "round_to_double (\<bar>w'\<bar> * M) \<le> round_to_double (\<bar>w\<bar> * M)"
      by (rule round_to_double_mono)
    with 1 assms(2) show ?thesis
      by (simp add: double_mul_def)
  next
    case 2
    have "0 \<le> round_to_double (\<bar>w\<bar> * M)" "0 \<le> round_to_double (\<bar>w'\<bar> * M)"
      using assms(1) by (simp_all add: round_to_double_nonneg)
    with 2 show ?thesis
      by (cases "w' = 0") (simp_all add: double_mul_def)
  next
    case 3
    have "0 \<le> round_to_double (\<bar>w'\<bar> * M)"
      using assms(1) by (simp add: round_to_double_nonneg)
    with 3 assms(2) show ?thesis
      by (cases "w' = 0") (simp_all add: double_mul_def)
  next
    case 4
    then have "0 < \<bar>w\<bar>" "\<bar>w\<bar> \<le> \<bar>w'\<bar>"
      using assms(2) by simp_all
    then have "0 < \<bar>w\<bar> * M" "\<bar>w\<bar> * M \<le> \<bar>w'\<bar> * M"
      using assms(1) by (simp_all add: mult_right_mono)
    then have "round_to_double (\<bar>w\<bar> * M) \<le> round_to_double (\<bar>w'\<bar> * M)"
      by (rule round_to_double_mono)
    with 4 assms(2) show ?thesis
      by (simp add: double_mul_def)
  qed
qed

lemma fontSize_of_mono: "w \<le> w' \<Longrightarrow> fontSize_of w \<le> fontSize_of w'"
proof -
  assume "w \<le> w'"
  then have "times_0_03 w \<le> times_0_03 w'"
    unfolding times_0_03_def by (intro double_mul_mono) simp_all
  then have "Math_round 58 (times_0_03 w) \<le> Math_round 58 (times_0_03 w')"
    unfolding Math_round_def by (intro zdiv_mono1) simp_all
  then show ?thesis
    by (simp add: fontSize_of_def)
qed

lemma spec_fontSize_div: "spec_fontSize w = max ((3 * w + 50) div 100) 18"
proof -
  have "real_of_int w * 3 / 100 + 1 / 2 = real_of_int (3 * w + 50) / real_of_int 100"
    by simp
  then have "round (real_of_int w * 3 / 100) = (3 * w + 50) div 100"
    unfolding round_def by (simp only: floor_divide_of_int_eq)
  then show ?thesis
    by (simp add: spec_fontSize_def)
qed

text \<open>
  Claim C8. For a positive width below \<open>2^52\<close> (every width of an image is far
  below), the font size the script computes in double arithmetic is the maximum of 18
  and 3 percent of the width rounded to the nearest integer, a tie going up. For every
  width the font size is at least 18, and it does not decrease when the width grows.
\<close>

theorem fontSize_formula:
  "(0 < width \<and> width < 2 ^ 52 \<longrightarrow> fontSize_of width = spec_fontSize width) \<and>
   18 \<le> fontSize_of width \<and>
   (width \<le> width' \<longrightarrow> fontSize_of width \<le> fontSize_of width')"
proof (intro conjI impI)
  assume "0 < width \<and> width < 2 ^ 52"
  then have "Math_round 58 (times_0_03 width) = (3 * width + 50) div 100"
    by (intro times_0_03_rounds_exactly) simp_all
  then show "fontSize_of width = spec_fontSize width"
    by (simp add: fontSize_of_def spec_fontSize_div)
next
  show "18 \<le> fontSize_of width"
    by (simp add: fontSize_of_def)
next
  assume "width \<le> width'"
  then show "fontSize_of width \<le> fontSize_of width'"
    by (rule fontSize_of_mono)
qed

text \<open>
  At the width 650, where 3 percent is the tie 19.5, and the larger width 1000.
\<close>

theorem fontSize_formula_witness:
  "(0::int) < 650 \<and> (650::int) < 2 ^ 52 \<and> fontSize_of 650 = spec_fontSize 650 \<and>
   spec_fontSize 650 = 20 \<and>
   (650::int) \<le> 1000 \<and> fontSize_of 650 \<le> fontSize_of 1000"
proof -
  have h: "(0::int) < 650 \<and> (650::int) < 2 ^ 52" and m: "(650::int) \<le> 1000"
    by simp_all
  have s: "spec_fontSize 650 = 20"
    by (simp add: spec_fontSize_div)
  from fontSize_formula [of 650 1000] h m s show ?thesis
    by blast
qed

section \<open>The watermark depends on the dimensions only\<close>

text \<open>
  Claim C9. \<^verbatim>\<open>createWatermarkSVG\<close> reads nothing but its two arguments. Take any two
  invocations: one in \<^verbatim>\<open>optimizeImage\<close>, in an environment \<open>e1\<close>, for any path, file
  name, set and state, and one in \<^verbatim>\<open>createThumbnail\<close>, in an environment \<open>e2\<close>, for
  any path, file name and state. When the dimensions read by the two are the same
  \<open>w\<close> and \<open>h\<close>, the overlay composited into the two outputs is the same text,
  \<open>createWatermarkSVG w h\<close>.
\<close>

theorem watermark_depends_on_dimensions_only:
  "optimizeImage_try e1 p1 f1 o1 (t1, s1) = Inr (t1', s1') \<and>
   metadata e1 (FromFile p1) = Inr (w, h) \<and>
   createThumbnail_try e2 p2 f2 o2 s2 = Inr s2' \<and>
   resize_toBuffer e2 p2 = Inr b \<and>
   metadata e2 (FromBuffer b) = Inr (w, h) \<longrightarrow>
   optimized s1' =
     optimized s1 @
     [(o1, \<lparr>job_input = FromFile p1, job_overlay = createWatermarkSVG w h, job_quality = 80\<rparr>)] \<and>
   thumbnails s2' =
     thumbnails s2 @
     [(o2, \<lparr>job_input = FromBuffer b, job_overlay = createWatermarkSVG w h, job_quality = 80\<rparr>)]"
proof (intro impI conjI)
  assume a: "optimizeImage_try e1 p1 f1 o1 (t1, s1) = Inr (t1', s1') \<and>
   metadata e1 (FromFile p1) = Inr (w, h) \<and>
   createThumbnail_try e2 p2 f2 o2 s2 = Inr s2' \<and>
   resize_toBuffer e2 p2 = Inr b \<and>
   metadata e2 (FromBuffer b) = Inr (w, h)"
  then show "optimized s1' =
     optimized s1 @
     [(o1, \<lparr>job_input = FromFile p1, job_overlay = createWatermarkSVG w h, job_quality = 80\<rparr>)]"
    by (auto simp: optimizeImage_try_def console_log_def Let_def split: option.splits)
  from a show "thumbnails s2' =
     thumbnails s2 @
     [(o2, \<lparr>job_input = FromBuffer b, job_overlay = createWatermarkSVG w h, job_quality = 80\<rparr>)]"
    by (auto simp: createThumbnail_try_def console_log_def Let_def split: option.splits)
qed

lemma small_optimize:
  "\<exists>t1' s1'. optimizeImage_try small_env ''img/products/a.jpg'' ''a.jpg''
      ''img/products/optimized/a.webp'' ([], fresh_state) = Inr (t1', s1')"
  by (simp add: optimizeImage_try_def small_env_def demo_env_def)

lemma demo_thumbnail:
  "\<exists>s2'. createThumbnail_try demo_env ''img/products/b.PNG'' ''b.PNG''
      ''img/products/thumbnail/b.webp'' fresh_state = Inr s2'"
  by (simp add: createThumbnail_try_def demo_env_def)

text \<open>
  An image of 400 by 320 that is optimized in one environment, and the thumbnail of
  400 by 320 of a larger image in another.
\<close>

theorem watermark_depends_on_dimensions_only_witness:
  "\<exists>t1' s1' s2'.
     optimizeImage_try small_env ''img/products/a.jpg'' ''a.jpg''
       ''img/products/optimized/a.webp'' ([], fresh_state) = Inr (t1', s1') \<and>
     metadata small_env (FromFile ''img/products/a.jpg'') = Inr (400, 320) \<and>
     createThumbnail_try demo_env ''img/products/b.PNG'' ''b.PNG''
       ''img/products/thumbnail/b.webp'' fresh_state = Inr s2' \<and>
     resize_toBuffer demo_env ''img/products/b.PNG'' = Inr ''resized img/products/b.PNG'' \<and>
     metadata demo_env (FromBuffer ''resized img/products/b.PNG'') = Inr (400, 320) \<and>
     optimized s1' =
       optimized fresh_state @
       [(''img/products/optimized/a.webp'',
         \<lparr>job_input = FromFile ''img/products/a.jpg'',
          job_overlay = createWatermarkSVG 400 320, job_quality = 80\<rparr>)] \<and>
     thumbnails s2' =
       thumbnails fresh_state @
       [(''img/products/thumbnail/b.webp'',
         \<lparr>job_input = FromBuffer ''resized img/products/b.PNG'',
          job_overlay = createWatermarkSVG 400 320, job_quality = 80\<rparr>)]"
proof -
  from small_optimize obtain t1' s1' where
    o: "optimizeImage_try small_env ''img/products/a.jpg'' ''a.jpg''
      ''img/products/optimized/a.webp'' ([], fresh_state) = Inr (t1', s1')"
    by blast
  from demo_thumbnail obtain s2' where
    t: "createThumbnail_try demo_env ''img/products/b.PNG'' ''b.PNG''
      ''img/products/thumbnail/b.webp'' fresh_state = Inr s2'"
    by blast
  have m1: "metadata small_env (FromFile ''img/products/a.jpg'') = Inr (400, 320)"
    by (simp add: small_env_def)
  have r: "resize_toBuffer demo_env ''img/products/b.PNG'' = Inr ''resized img/products/b.PNG''"
    by (simp add: demo_env_def)
  have m2: "metadata demo_env (FromBuffer ''resized img/products/b.PNG'') = Inr (400, 320)"
    by (simp add: demo_env_def)
  from watermark_depends_on_dimensions_only
    [of small_env "''img/products/a.jpg''" "''a.jpg''" "''img/products/optimized/a.webp''"
      "[]" fresh_state t1' s1' 400 320 demo_env "''img/products/b.PNG''" "''b.PNG''"
      "''img/products/thumbnail/b.webp''" fresh_state s2' "''resized img/products/b.PNG''"]
    o m1 t r m2
  show ?thesis
    by blast
qed

end
